theory Spec2Isabelle
  imports Complex_Main
begin

section \<open>The 2048 rules engine of game_2048.py\<close>

text \<open>
  A shallow embedding of the classes \<open>TileMove\<close>, \<open>MoveResult\<close> and \<open>Game2048\<close> and of the
  two persistence functions. Python integers are \<open>int\<close>, lists are lists, an exception
  that leaves a function is the \<open>Inl\<close> side of a sum. The two random draws of
  \<open>_spawn_tile\<close> and the behaviour of the score file are inputs of the model.
\<close>

subsection \<open>Exceptions\<close>

datatype py_error =
  IndexError | OSError | JSONDecodeError | ValueError
  | TypeError | AttributeError | OverflowError

subsection \<open>The score file\<close>

text \<open>
  What \<open>json.load\<close> can return. A float is a finite value or one of the three special
  values that the \<open>json\<close> module reads (\<open>Infinity\<close>, \<open>-Infinity\<close>, \<open>NaN\<close>); an object is
  the parsed dictionary as an association list, looked up with \<open>map_of\<close>.
\<close>

datatype py_float = Finite real | PosInf | NegInf | NaN

datatype json =
  JNull | JBool bool | JInt int | JFloat py_float | JStr string
  | JArr "json list" | JObj "(string \<times> json) list"

text \<open>
  The states of \<open>SCORE_STATE_FILE\<close> that \<open>load_score_state\<close> tells apart: no such path,
  a path that \<open>open\<close> or \<open>read\<close> refuses (OSError), bytes that are not UTF-8
  (UnicodeDecodeError, a ValueError), text that is not JSON (JSONDecodeError), and a
  JSON document.
\<close>

datatype file_state = Missing | Unreadable | Undecodable | NotJson | Json json

text \<open>How the next \<open>open(..., "w")\<close> and \<open>json.dump\<close> will go.\<close>

datatype write_outcome = WriteOk | OpenFails | DumpFails

record disk =
  contents :: file_state
  next_write :: write_outcome
  save_calls :: "(int \<times> int) list"

record score_state =
  ss_best_score :: int
  ss_total_score :: int

definition zero_state :: score_state where
  "zero_state = \<lparr>ss_best_score = 0, ss_total_score = 0\<rparr>"

text \<open>
  Python's \<open>int(x)\<close> on a JSON value. The grammar of \<open>int(str)\<close> belongs to the
  interpreter and is a parameter: \<open>parse s = None\<close> stands for its ValueError.
\<close>

fun py_int :: "(string \<Rightarrow> int option) \<Rightarrow> json \<Rightarrow> py_error + int" where
  "py_int parse (JInt n) = Inr n"
| "py_int parse (JBool b) = Inr (if b then 1 else 0)"
| "py_int parse (JFloat (Finite x)) = Inr (if 0 \<le> x then \<lfloor>x\<rfloor> else \<lceil>x\<rceil>)"
| "py_int parse (JFloat PosInf) = Inl OverflowError"
| "py_int parse (JFloat NegInf) = Inl OverflowError"
| "py_int parse (JFloat NaN) = Inl ValueError"
| "py_int parse (JStr s) = (case parse s of Some n \<Rightarrow> Inr n | None \<Rightarrow> Inl ValueError)"
| "py_int parse JNull = Inl TypeError"
| "py_int parse (JArr xs) = Inl TypeError"
| "py_int parse (JObj kvs) = Inl TypeError"

text \<open>\<open>data.get(key, 0)\<close>: only a dictionary has the method.\<close>

fun json_get :: "json \<Rightarrow> string \<Rightarrow> py_error + json" where
  "json_get (JObj kvs) key = Inr (case map_of kvs key of Some v \<Rightarrow> v | None \<Rightarrow> JInt 0)"
| "json_get data key = Inl AttributeError"

text \<open>The \<open>except (OSError, json.JSONDecodeError, ValueError)\<close> clause.\<close>

definition load_handler :: "py_error \<Rightarrow> py_error + score_state" where
  "load_handler e =
     (if e = OSError \<or> e = JSONDecodeError \<or> e = ValueError then Inr zero_state else Inl e)"

definition load_fields :: "(string \<Rightarrow> int option) \<Rightarrow> json \<Rightarrow> py_error + score_state" where
  "load_fields parse data =
     (case json_get data ''best_score'' of
        Inl e \<Rightarrow> Inl e
      | Inr bv \<Rightarrow>
          (case py_int parse bv of
             Inl e \<Rightarrow> Inl e
           | Inr b \<Rightarrow>
               (case json_get data ''total_score'' of
                  Inl e \<Rightarrow> Inl e
                | Inr tv \<Rightarrow>
                    (case py_int parse tv of
                       Inl e \<Rightarrow> Inl e
                     | Inr t \<Rightarrow> Inr \<lparr>ss_best_score = b, ss_total_score = t\<rparr>))))"

definition load_score_state :: "(string \<Rightarrow> int option) \<Rightarrow> file_state \<Rightarrow> py_error + score_state" where
  "load_score_state parse f =
     (case f of
        Missing \<Rightarrow> Inr zero_state
      | Unreadable \<Rightarrow> load_handler OSError
      | Undecodable \<Rightarrow> load_handler ValueError
      | NotJson \<Rightarrow> load_handler JSONDecodeError
      | Json data \<Rightarrow>
          (case load_fields parse data of Inl e \<Rightarrow> load_handler e | Inr s \<Rightarrow> Inr s))"

text \<open>
  \<open>save_score_state\<close>: the call is logged in \<open>save_calls\<close>; the file takes the dumped
  dictionary when the write succeeds, keeps its content when \<open>open\<close> fails, and is left
  with a truncated document when \<open>json.dump\<close> fails after \<open>open\<close>. The OSError is
  swallowed in both cases.
\<close>

definition save_score_state :: "int \<Rightarrow> int \<Rightarrow> disk \<Rightarrow> disk" where
  "save_score_state best_v total_v d =
     d\<lparr>save_calls := save_calls d @ [(best_v, total_v)],
       contents := (case next_write d of
                  WriteOk \<Rightarrow>
                    Json (JObj [(''best_score'', JInt best_v), (''total_score'', JInt total_v)])
                | OpenFails \<Rightarrow> contents d
                | DumpFails \<Rightarrow> NotJson)\<rparr>"

subsection \<open>Grid primitives\<close>

definition GRID_SIZE :: nat where
  "GRID_SIZE = 4"

definition reverse :: "'a list \<Rightarrow> 'a list" where
  "reverse row = rev row"

text \<open>\<open>zip(*board)\<close> stops at the shortest row, and is empty for an empty board.\<close>

definition transpose_board :: "'a list list \<Rightarrow> 'a list list" where
  "transpose_board board =
     (if board = [] then []
      else map (\<lambda>i. map (\<lambda>row. row ! i) board)
             [0..<fold min (map length (tl board)) (length (hd board))])"

text \<open>
  The fields \<open>start\<close>, \<open>end\<close>, \<open>value\<close>, \<open>merged\<close> of \<open>TileMove\<close> carry the prefix \<open>tm_\<close>, and
  the field \<open>board\<close> of \<open>MoveResult\<close> is \<open>r_board\<close>, since \<open>end\<close> and \<open>value\<close> are reserved
  words and \<open>board\<close> is also a field of the game. Coordinates are Python integers:
  \<open>GRID_SIZE - 1 - col\<close> is not cut off at zero.
\<close>

record TileMove =
  tm_start :: "int \<times> int"
  tm_end :: "int \<times> int"
  tm_value :: int
  tm_merged :: bool

record MoveResult =
  r_board :: "int list list"
  score_gain :: int
  moved :: bool
  moves :: "TileMove list"
  spawn :: "(nat \<times> nat \<times> int) option"

text \<open>
  The result of the two random calls of one \<open>_spawn_tile\<close>: the number that
  \<open>random.choice\<close> draws and the value of \<open>random.random()\<close>, taken as a real number.
\<close>

record draw =
  pick :: nat
  unit_draw :: real

record game =
  best_score :: int
  total_score :: int
  score :: int
  board :: "int list list"
  game_over :: bool
  won :: bool
  last_spawn :: "(nat \<times> nat \<times> int) option"
  store :: disk

subsection \<open>Slide left\<close>

definition non_zero_of :: "nat \<Rightarrow> int list \<Rightarrow> (int \<times> int \<times> int) list" where
  "non_zero_of r row =
     map (\<lambda>(c, v). (v, int r, int c)) (filter (\<lambda>(c, v). v \<noteq> 0) (enumerate 0 row))"

text \<open>
  The \<open>while idx < len(non_zero)\<close> loop of one row. A write \<open>new_row[dest_col] = ...\<close>
  beyond the row raises IndexError.
\<close>

function merge_loop ::
  "nat \<Rightarrow> (int \<times> int \<times> int) list \<Rightarrow> nat \<Rightarrow> nat \<Rightarrow> int list \<Rightarrow> int \<Rightarrow> TileMove list
   \<Rightarrow> py_error + (int list \<times> int \<times> TileMove list)" where
  "merge_loop r non_zero idx target new_row total_gain mvs =
     (if idx < length non_zero then
        (let v = fst (non_zero ! idx);
             sr = fst (snd (non_zero ! idx));
             sc = snd (snd (non_zero ! idx));
             dest_col = target
         in if idx + 1 < length non_zero \<and> fst (non_zero ! (idx + 1)) = v then
              (let next_value = fst (non_zero ! (idx + 1));
                   nr = fst (snd (non_zero ! (idx + 1)));
                   nc = snd (snd (non_zero ! (idx + 1)));
                   merged_value = v * 2
               in if dest_col < length new_row then
                    merge_loop r non_zero (idx + 2) (target + 1)
                      (new_row[dest_col := merged_value]) (total_gain + merged_value)
                      (mvs @ [\<lparr>tm_start = (sr, sc), tm_end = (int r, int dest_col),
                                tm_value = v, tm_merged = True\<rparr>,
                              \<lparr>tm_start = (nr, nc), tm_end = (int r, int dest_col),
                                tm_value = next_value, tm_merged = True\<rparr>])
                  else Inl IndexError)
            else if dest_col < length new_row then
              merge_loop r non_zero (idx + 1) (target + 1)
                (new_row[dest_col := v]) total_gain
                (mvs @ [\<lparr>tm_start = (sr, sc), tm_end = (int r, int dest_col),
                          tm_value = v, tm_merged = False\<rparr>])
            else Inl IndexError)
      else Inr (new_row, total_gain, mvs))"
  by pat_completeness auto
termination
  by (relation "measure (\<lambda>(r, non_zero, idx, rest). length non_zero - idx)") auto

declare merge_loop.simps [simp del]

text \<open>The \<open>for r, row in enumerate(board)\<close> loop.\<close>

fun move_left_rows ::
  "(nat \<times> int list) list \<Rightarrow> int list list \<Rightarrow> int \<Rightarrow> bool \<Rightarrow> TileMove list
   \<Rightarrow> py_error + MoveResult" where
  "move_left_rows [] new_board total_gain mvd mvs =
     Inr \<lparr>r_board = new_board, score_gain = total_gain, moved = mvd, moves = mvs,
          spawn = None\<rparr>"
| "move_left_rows ((r, row) # rest) new_board total_gain mvd mvs =
     (case merge_loop r (non_zero_of r row) 0 0 (replicate GRID_SIZE 0) total_gain mvs of
        Inl e \<Rightarrow> Inl e
      | Inr (new_row, total_gain', mvs') \<Rightarrow>
          move_left_rows rest (new_board @ [new_row]) total_gain'
            (if new_row \<noteq> row then True else mvd) mvs')"

definition move_left :: "int list list \<Rightarrow> py_error + MoveResult" where
  "move_left b = move_left_rows (enumerate 0 b) [] 0 False []"

subsection \<open>The four directions\<close>

definition mirror_horizontal :: "TileMove \<Rightarrow> TileMove" where
  "mirror_horizontal m =
     \<lparr>tm_start = (fst (tm_start m), int GRID_SIZE - 1 - snd (tm_start m)),
      tm_end = (fst (tm_end m), int GRID_SIZE - 1 - snd (tm_end m)),
      tm_value = tm_value m, tm_merged = tm_merged m\<rparr>"

definition transpose_move :: "TileMove \<Rightarrow> TileMove" where
  "transpose_move m =
     \<lparr>tm_start = (snd (tm_start m), fst (tm_start m)),
      tm_end = (snd (tm_end m), fst (tm_end m)),
      tm_value = tm_value m, tm_merged = tm_merged m\<rparr>"

text \<open>
  The \<open>if/elif/else\<close> chain of \<open>move\<close> that computes \<open>result\<close>: the move engine. As in
  the source, the last branch takes every direction that is none of the first three.
\<close>

definition move_engine :: "string \<Rightarrow> int list list \<Rightarrow> py_error + MoveResult" where
  "move_engine direction b =
     (if direction = ''LEFT'' then move_left b
      else if direction = ''RIGHT'' then
        (let flipped = map reverse b
         in case move_left flipped of
              Inl e \<Rightarrow> Inl e
            | Inr result \<Rightarrow>
                Inr (result\<lparr>r_board := map reverse (r_board result),
                            moves := map mirror_horizontal (moves result)\<rparr>))
      else if direction = ''UP'' then
        (let transposed = transpose_board b
         in case move_left transposed of
              Inl e \<Rightarrow> Inl e
            | Inr result \<Rightarrow>
                Inr (result\<lparr>r_board := transpose_board (r_board result),
                            moves := map transpose_move (moves result)\<rparr>))
      else
        (let transposed = transpose_board b;
             flipped = map reverse transposed
         in case move_left flipped of
              Inl e \<Rightarrow> Inl e
            | Inr result \<Rightarrow>
                (let unflipped = map reverse (r_board result);
                     mirrored = map mirror_horizontal (moves result)
                 in Inr (result\<lparr>r_board := transpose_board unflipped,
                                moves := map transpose_move mirrored\<rparr>))))"

subsection \<open>Spawn, score ledger, terminal check\<close>

text \<open>The comprehension of \<open>_spawn_tile\<close> reads all sixteen cells.\<close>

definition covers_grid :: "int list list \<Rightarrow> bool" where
  "covers_grid b =
     (GRID_SIZE \<le> length b \<and> list_all (\<lambda>r. GRID_SIZE \<le> length (b ! r)) [0..<GRID_SIZE])"

definition empty_cells :: "int list list \<Rightarrow> (nat \<times> nat) list" where
  "empty_cells b =
     concat (map (\<lambda>r. map (\<lambda>c. (r, c)) (filter (\<lambda>c. b ! r ! c = 0) [0..<GRID_SIZE]))
               [0..<GRID_SIZE])"

text \<open>
  \<open>random.choice(seq)\<close> is \<open>seq[randbelow(len(seq))]\<close>: the draw's \<open>pick\<close>, reduced below
  the length. \<open>unit_draw\<close> is the value of \<open>random.random()\<close>.
\<close>

definition spawn_tile :: "game \<Rightarrow> draw \<Rightarrow> py_error + ((nat \<times> nat \<times> int) option \<times> game)" where
  "spawn_tile g d =
     (if \<not> covers_grid (board g) then Inl IndexError
      else
        (let cells = empty_cells (board g)
         in if cells = [] then Inr (None, g)
            else
              (let r = fst (cells ! (pick d mod length cells));
                   c = snd (cells ! (pick d mod length cells));
                   v = (if unit_draw d < 1 / 10 then 4 else 2)
               in Inr (Some (r, c, v),
                       g\<lparr>board := (board g)[r := (board g ! r)[c := v]],
                         last_spawn := Some (r, c, v)\<rparr>))))"

definition apply_score_gain :: "game \<Rightarrow> int \<Rightarrow> game" where
  "apply_score_gain g gain =
     (if gain \<le> 0 then g
      else
        (let g1 = g\<lparr>total_score := total_score g + gain\<rparr>;
             g2 = (if score g1 > best_score g1 then g1\<lparr>best_score := score g1\<rparr> else g1)
         in g2\<lparr>store := save_score_state (best_score g2) (total_score g2) (store g2)\<rparr>))"

definition current_total :: "game \<Rightarrow> int" where
  "current_total g = total_score g"

definition cell :: "int list list \<Rightarrow> nat \<times> nat \<Rightarrow> py_error + int" where
  "cell b p =
     (if fst p < length b \<and> snd p < length (b ! fst p) then Inr (b ! fst p ! snd p)
      else Inl IndexError)"

text \<open>
  One of the two nested loops of \<open>_can_move\<close>, over the pairs of cells it compares in
  the order it compares them: True at the first equal pair, IndexError at the first
  read out of range.
\<close>

fun scan_pairs :: "int list list \<Rightarrow> ((nat \<times> nat) \<times> (nat \<times> nat)) list \<Rightarrow> py_error + bool" where
  "scan_pairs b [] = Inr False"
| "scan_pairs b ((p, q) # rest) =
     (case cell b p of
        Inl e \<Rightarrow> Inl e
      | Inr x \<Rightarrow>
          (case cell b q of
             Inl e \<Rightarrow> Inl e
           | Inr y \<Rightarrow> if x = y then Inr True else scan_pairs b rest))"

definition row_pairs :: "((nat \<times> nat) \<times> (nat \<times> nat)) list" where
  "row_pairs =
     concat (map (\<lambda>r. map (\<lambda>c. ((r, c), (r, c + 1))) [0..<GRID_SIZE - 1]) [0..<GRID_SIZE])"

definition col_pairs :: "((nat \<times> nat) \<times> (nat \<times> nat)) list" where
  "col_pairs =
     concat (map (\<lambda>c. map (\<lambda>r. ((r, c), (r + 1, c))) [0..<GRID_SIZE - 1]) [0..<GRID_SIZE])"

definition can_move :: "int list list \<Rightarrow> py_error + bool" where
  "can_move b =
     (if list_ex (\<lambda>row. 0 \<in> set row) b then Inr True
      else
        (case scan_pairs b row_pairs of
           Inl e \<Rightarrow> Inl e
         | Inr True \<Rightarrow> Inr True
         | Inr False \<Rightarrow> scan_pairs b col_pairs))"

subsection \<open>The game\<close>

definition directions :: "string set" where
  "directions = {''LEFT'', ''RIGHT'', ''UP'', ''DOWN''}"

definition reaches_2048 :: "int list list \<Rightarrow> bool" where
  "reaches_2048 b = list_ex (\<lambda>row. list_ex (\<lambda>c. c \<ge> 2048) row) b"

text \<open>
  \<open>move\<close> returns the result and the game after it. \<open>self.board\<close> and \<open>result.board\<close> are
  one list object from the assignment on, so the board of the returned result holds the
  spawned tile. An exception ends the call; the state it leaves behind is not modelled.
\<close>

definition move :: "game \<Rightarrow> string \<Rightarrow> draw \<Rightarrow> py_error + (MoveResult option \<times> game)" where
  "move g direction d =
     (if direction \<notin> directions then Inr (None, g)
      else
        (case move_engine direction (board g) of
           Inl e \<Rightarrow> Inl e
         | Inr result \<Rightarrow>
             if \<not> moved result then Inr (None, g)
             else
               (let g1 = g\<lparr>board := r_board result\<rparr>;
                    g2 = g1\<lparr>score := score g1 + score_gain result\<rparr>;
                    g3 = apply_score_gain g2 (score_gain result);
                    g4 = (if reaches_2048 (board g3) then g3\<lparr>won := True\<rparr> else g3)
                in case spawn_tile g4 d of
                     Inl e \<Rightarrow> Inl e
                   | Inr (sp, g5) \<Rightarrow>
                       (case can_move (board g5) of
                          Inl e \<Rightarrow> Inl e
                        | Inr cm \<Rightarrow>
                            Inr (Some (result\<lparr>r_board := board g5, spawn := sp\<rparr>),
                                 g5\<lparr>game_over := \<not> cm\<rparr>)))))"

definition reset :: "game \<Rightarrow> draw \<Rightarrow> draw \<Rightarrow> py_error + game" where
  "reset g d1 d2 =
     (let g1 = g\<lparr>board := replicate GRID_SIZE (replicate GRID_SIZE 0), score := 0,
                 game_over := False, won := False, last_spawn := None\<rparr>
      in case spawn_tile g1 d1 of
           Inl e \<Rightarrow> Inl e
         | Inr (s1, g2) \<Rightarrow>
             (case spawn_tile g2 d2 of Inl e \<Rightarrow> Inl e | Inr (s2, g3) \<Rightarrow> Inr g3))"

definition init_game ::
  "(string \<Rightarrow> int option) \<Rightarrow> disk \<Rightarrow> draw \<Rightarrow> draw \<Rightarrow> py_error + game" where
  "init_game parse dk d1 d2 =
     (case load_score_state parse (contents dk) of
        Inl e \<Rightarrow> Inl e
      | Inr st \<Rightarrow>
          reset \<lparr>best_score = ss_best_score st, total_score = ss_total_score st, score = 0,
                 board = [], game_over = False, won = False, last_spawn = None,
                 store = dk\<rparr> d1 d2)"

text \<open>
  A session after construction: the caller's commands in order, each with the draw its
  spawn would use. The results of the accepted commands are collected.
\<close>

fun play :: "game \<Rightarrow> (string \<times> draw) list \<Rightarrow> py_error + (MoveResult list \<times> game)" where
  "play g [] = Inr ([], g)"
| "play g ((direction, d) # rest) =
     (case move g direction d of
        Inl e \<Rightarrow> Inl e
      | Inr (res, g') \<Rightarrow>
          (case play g' rest of
             Inl e \<Rightarrow> Inl e
           | Inr (rs, g'') \<Rightarrow> Inr ((case res of None \<Rightarrow> rs | Some x \<Rightarrow> x # rs), g'')))"

subsection \<open>Slide left as a function of the row\<close>

text \<open>
  The values, the gain and the movements that the loop of one row computes, as
  recursions over the list of non-zero tiles. \<open>merge_pairs\<close> pairs each tile with its
  right neighbour at most once, from the left; the doubled tile is put out and never
  looked at again.
\<close>

fun merge_pairs :: "int list \<Rightarrow> int list" where
  "merge_pairs [] = []"
| "merge_pairs [x] = [x]"
| "merge_pairs (x # y # rest) =
     (if y = x then (x * 2) # merge_pairs rest else x # merge_pairs (y # rest))"

fun gain_pairs :: "int list \<Rightarrow> int" where
  "gain_pairs [] = 0"
| "gain_pairs [x] = 0"
| "gain_pairs (x # y # rest) =
     (if y = x then x * 2 + gain_pairs rest else gain_pairs (y # rest))"

fun line_moves :: "(nat \<Rightarrow> int \<times> int) \<Rightarrow> nat \<Rightarrow> (int \<times> int \<times> int) list \<Rightarrow> TileMove list" where
  "line_moves dest k [] = []"
| "line_moves dest k [(v, s)] =
     [\<lparr>tm_start = s, tm_end = dest k, tm_value = v, tm_merged = False\<rparr>]"
| "line_moves dest k ((v, s) # (w, t) # rest) =
     (if w = v then
        \<lparr>tm_start = s, tm_end = dest k, tm_value = v, tm_merged = True\<rparr>
        # \<lparr>tm_start = t, tm_end = dest k, tm_value = w, tm_merged = True\<rparr>
        # line_moves dest (k + 1) rest
      else
        \<lparr>tm_start = s, tm_end = dest k, tm_value = v, tm_merged = False\<rparr>
        # line_moves dest (k + 1) ((w, t) # rest))"

definition slide_row :: "int list \<Rightarrow> int list" where
  "slide_row row =
     merge_pairs (filter (\<lambda>v. v \<noteq> 0) row)
     @ replicate (GRID_SIZE - length (merge_pairs (filter (\<lambda>v. v \<noteq> 0) row))) 0"

definition row_gain :: "int list \<Rightarrow> int" where
  "row_gain row = gain_pairs (filter (\<lambda>v. v \<noteq> 0) row)"

definition row_moves :: "nat \<Rightarrow> int list \<Rightarrow> TileMove list" where
  "row_moves r row = line_moves (\<lambda>k. (int r, int k)) 0 (non_zero_of r row)"

definition is_grid :: "int list list \<Rightarrow> bool" where
  "is_grid b = (length b = GRID_SIZE \<and> list_all (\<lambda>row. length row = GRID_SIZE) b)"


text \<open>The movement records of a whole board, rows numbered from \<open>n\<close>.\<close>

definition board_moves :: "nat \<Rightarrow> int list list \<Rightarrow> TileMove list" where
  "board_moves n b = concat (map (\<lambda>p. row_moves (fst p) (snd p)) (enumerate n b))"

subsection \<open>Predicates and measures of the statements\<close>

text \<open>
  \<open>no_moves_left\<close>: the grid has no zero cell and no two cells next to each other in a
  row or in a column hold the same value. \<open>grid_sum\<close>: the sum of all cells.
  \<open>spawn_value\<close>: the value of a spawn record, zero when nothing was spawned.
  \<open>after_slide\<close>: the game after lines 196 to 201 of \<open>move\<close>, before the spawn.
\<close>

definition no_moves_left :: "int list list \<Rightarrow> bool" where
  "no_moves_left b =
     (list_all (\<lambda>row. 0 \<notin> set row) b
      \<and> list_all (\<lambda>r. list_all (\<lambda>c. b ! r ! c \<noteq> b ! r ! (c + 1)) [0..<GRID_SIZE - 1])
           [0..<GRID_SIZE]
      \<and> list_all (\<lambda>c. list_all (\<lambda>r. b ! r ! c \<noteq> b ! (r + 1) ! c) [0..<GRID_SIZE - 1])
           [0..<GRID_SIZE])"

definition grid_sum :: "int list list \<Rightarrow> int" where
  "grid_sum b = sum_list (map sum_list b)"

definition spawn_value :: "(nat \<times> nat \<times> int) option \<Rightarrow> int" where
  "spawn_value sp = (case sp of None \<Rightarrow> 0 | Some (r, c, v) \<Rightarrow> v)"

definition after_slide :: "game \<Rightarrow> MoveResult \<Rightarrow> game" where
  "after_slide g res =
     (let g3 = apply_score_gain (g\<lparr>board := r_board res, score := score g + score_gain res\<rparr>)
                 (score_gain res)
      in if reaches_2048 (board g3) then g3\<lparr>won := True\<rparr> else g3)"

subsection \<open>Direct simulation of the four slides\<close>

text \<open>
  A second way to slide, written from the description of the game and not from
  \<open>move\<close>: no board is reversed or transposed. Line \<open>i\<close> of a direction is row \<open>i\<close> (LEFT,
  RIGHT) or column \<open>i\<close> (UP, DOWN); \<open>line_cell\<close> gives its cells counted from the edge the
  tiles slide to. The non-zero tiles of a line are read in that order, paired once
  (\<open>merge_pairs\<close>), and written back along the same line; each movement runs from the
  cell a tile was read at to the cell it is written to. The board has moved when it
  differs from the input. \<open>down_by_transforms\<close> is the composition for DOWN in words:
  transpose, reverse the rows, slide left, reverse the rows back, transpose back, each
  movement mirrored and then transposed.
\<close>

definition line_cell :: "string \<Rightarrow> nat \<Rightarrow> nat \<Rightarrow> int \<times> int" where
  "line_cell direction i k =
     (if direction = ''LEFT'' then (int i, int k)
      else if direction = ''RIGHT'' then (int i, int GRID_SIZE - 1 - int k)
      else if direction = ''UP'' then (int k, int i)
      else (int GRID_SIZE - 1 - int k, int i))"

definition at_cell :: "int list list \<Rightarrow> int \<times> int \<Rightarrow> int" where
  "at_cell b p = b ! nat (fst p) ! nat (snd p)"

definition line_tiles :: "string \<Rightarrow> int list list \<Rightarrow> nat \<Rightarrow> (int \<times> int \<times> int) list" where
  "line_tiles direction b i =
     map (\<lambda>k. (at_cell b (line_cell direction i k), line_cell direction i k))
       (filter (\<lambda>k. at_cell b (line_cell direction i k) \<noteq> 0) [0..<GRID_SIZE])"

definition slid_line :: "string \<Rightarrow> int list list \<Rightarrow> nat \<Rightarrow> int list" where
  "slid_line direction b i =
     merge_pairs (map fst (line_tiles direction b i))
     @ replicate (GRID_SIZE - length (merge_pairs (map fst (line_tiles direction b i)))) 0"

definition line_pos :: "string \<Rightarrow> nat \<Rightarrow> nat \<Rightarrow> nat \<times> nat" where
  "line_pos direction r c =
     (if direction = ''LEFT'' then (r, c)
      else if direction = ''RIGHT'' then (r, GRID_SIZE - 1 - c)
      else if direction = ''UP'' then (c, r)
      else (c, GRID_SIZE - 1 - r))"

definition brute_board :: "string \<Rightarrow> int list list \<Rightarrow> int list list" where
  "brute_board direction b =
     map (\<lambda>r. map (\<lambda>c. slid_line direction b (fst (line_pos direction r c))
                        ! snd (line_pos direction r c)) [0..<GRID_SIZE])
       [0..<GRID_SIZE]"

definition brute_force :: "string \<Rightarrow> int list list \<Rightarrow> MoveResult" where
  "brute_force direction b =
     \<lparr>r_board = brute_board direction b,
      score_gain = sum_list (map (\<lambda>i. gain_pairs (map fst (line_tiles direction b i)))
                     [0..<GRID_SIZE]),
      moved = (brute_board direction b \<noteq> b),
      moves = concat (map (\<lambda>i. line_moves (line_cell direction i) 0 (line_tiles direction b i))
                [0..<GRID_SIZE]),
      spawn = None\<rparr>"

definition map_cells :: "(int \<times> int \<Rightarrow> int \<times> int) \<Rightarrow> TileMove \<Rightarrow> TileMove" where
  "map_cells fc m =
     \<lparr>tm_start = fc (tm_start m), tm_end = fc (tm_end m),
      tm_value = tm_value m, tm_merged = tm_merged m\<rparr>"

definition down_by_transforms :: "int list list \<Rightarrow> py_error + MoveResult" where
  "down_by_transforms b =
     (case move_left (map reverse (transpose_board b)) of
        Inl e \<Rightarrow> Inl e
      | Inr res \<Rightarrow>
          Inr (res\<lparr>r_board := transpose_board (map reverse (r_board res)),
                   moves := map (\<lambda>m. transpose_move (mirror_horizontal m)) (moves res)\<rparr>))"

subsection \<open>Example states\<close>

definition example_disk :: disk where
  "example_disk = \<lparr>contents = Missing, next_write = WriteOk, save_calls = []\<rparr>"

definition example_game :: game where
  "example_game =
     \<lparr>best_score = 12, total_score = 40, score = 8,
      board = [[2, 2, 0, 0], [0, 0, 0, 0], [0, 0, 0, 0], [0, 0, 0, 0]],
      game_over = False, won = False, last_spawn = None, store = example_disk\<rparr>"

definition example_draw :: draw where
  "example_draw = \<lparr>pick = 0, unit_draw = 1 / 2\<rparr>"

definition full_game :: game where
  "full_game =
     \<lparr>best_score = 12, total_score = 40, score = 8,
      board = [[2, 4, 2, 4], [4, 2, 4, 2], [2, 4, 2, 4], [4, 2, 4, 2]],
      game_over = True, won = False, last_spawn = None, store = example_disk\<rparr>"

definition example_result :: MoveResult where
  "example_result =
     \<lparr>r_board = [[4, 2, 0, 0], [0, 0, 0, 0], [0, 0, 0, 0], [0, 0, 0, 0]],
      score_gain = 4, moved = True,
      moves = [\<lparr>tm_start = (0, 0), tm_end = (0, 0), tm_value = 2, tm_merged = True\<rparr>,
               \<lparr>tm_start = (0, 1), tm_end = (0, 0), tm_value = 2, tm_merged = True\<rparr>],
      spawn = Some (0, 1, 2)\<rparr>"

definition example_after :: game where
  "example_after =
     \<lparr>best_score = 12, total_score = 44, score = 12,
      board = [[4, 2, 0, 0], [0, 0, 0, 0], [0, 0, 0, 0], [0, 0, 0, 0]],
      game_over = False, won = False, last_spawn = Some (0, 1, 2),
      store = \<lparr>contents = Json (JObj [(''best_score'', JInt 12), (''total_score'', JInt 44)]),
               next_write = WriteOk, save_calls = [(12, 44)]\<rparr>\<rparr>"

definition near_win_game :: game where
  "near_win_game =
     example_game\<lparr>board := [[1024, 1024, 0, 0], [0, 0, 0, 0], [0, 0, 0, 0], [0, 0, 0, 0]]\<rparr>"

definition near_win_result :: MoveResult where
  "near_win_result =
     \<lparr>r_board = [[2048, 2, 0, 0], [0, 0, 0, 0], [0, 0, 0, 0], [0, 0, 0, 0]],
      score_gain = 2048, moved = True,
      moves = [\<lparr>tm_start = (0, 0), tm_end = (0, 0), tm_value = 1024, tm_merged = True\<rparr>,
               \<lparr>tm_start = (0, 1), tm_end = (0, 0), tm_value = 1024, tm_merged = True\<rparr>],
      spawn = Some (0, 1, 2)\<rparr>"

definition near_win_after :: game where
  "near_win_after =
     \<lparr>best_score = 2056, total_score = 2088, score = 2056,
      board = [[2048, 2, 0, 0], [0, 0, 0, 0], [0, 0, 0, 0], [0, 0, 0, 0]],
      game_over = False, won = True, last_spawn = Some (0, 1, 2),
      store = \<lparr>contents = Json (JObj [(''best_score'', JInt 2056), (''total_score'', JInt 2088)]),
               next_write = WriteOk, save_calls = [(2056, 2088)]\<rparr>\<rparr>"

section \<open>The loops of slide left\<close>

lemma merge_loop_eq:
  "target + length (merge_pairs (map fst (drop idx nz))) \<le> length new_row \<Longrightarrow>
   merge_loop r nz idx target new_row gain mvs =
     Inr (take target new_row @ merge_pairs (map fst (drop idx nz))
            @ drop (target + length (merge_pairs (map fst (drop idx nz)))) new_row,
          gain + gain_pairs (map fst (drop idx nz)),
          mvs @ line_moves (\<lambda>k. (int r, int k)) target (drop idx nz))"
proof (induction "length nz - idx" arbitrary: idx target new_row gain mvs rule: less_induct)
  case less
  show ?case
  proof (cases "idx < length nz")
    case False
    then show ?thesis by (simp add: merge_loop.simps)
  next
    case True
    then obtain v s where d1: "drop idx nz = (v, s) # drop (Suc idx) nz" and n1: "nz ! idx = (v, s)"
      by (metis Cons_nth_drop_Suc surj_pair)
    show ?thesis
    proof (cases "Suc idx < length nz \<and> fst (nz ! Suc idx) = v")
      case False
      then have mp: "merge_pairs (map fst (drop idx nz)) = v # merge_pairs (map fst (drop (Suc idx) nz))"
        and gp: "gain_pairs (map fst (drop idx nz)) = gain_pairs (map fst (drop (Suc idx) nz))"
        and lm: "line_moves (\<lambda>k. (int r, int k)) target (drop idx nz) =
           \<lparr>tm_start = s, tm_end = (int r, int target), tm_value = v, tm_merged = False\<rparr>
           # line_moves (\<lambda>k. (int r, int k)) (Suc target) (drop (Suc idx) nz)"
        using d1 by (cases "drop (Suc idx) nz"; auto simp: nth_via_drop)+
      from less.prems mp have tl: "target < length new_row"
        and p': "Suc target + length (merge_pairs (map fst (drop (Suc idx) nz))) \<le> length (new_row[target := v])"
        by simp_all
      have m: "length nz - Suc idx < length nz - idx" using True by simp
      have step: "merge_loop r nz idx target new_row gain mvs =
          merge_loop r nz (Suc idx) (Suc target) (new_row[target := v]) gain
            (mvs @ [\<lparr>tm_start = s, tm_end = (int r, int target), tm_value = v, tm_merged = False\<rparr>])"
        using False True tl n1 by (subst merge_loop.simps) (auto simp: Let_def)
      show ?thesis
        using tl by (simp add: step less.hyps [OF m p'] mp gp lm take_Suc_conv_app_nth)
    next
      case mrg: True
      then obtain t where d2: "drop (Suc idx) nz = (v, t) # drop (Suc (Suc idx)) nz"
        and n2: "nz ! Suc idx = (v, t)"
        by (metis Cons_nth_drop_Suc prod.collapse)
      have mp: "merge_pairs (map fst (drop idx nz)) = (v * 2) # merge_pairs (map fst (drop (Suc (Suc idx)) nz))"
        and gp: "gain_pairs (map fst (drop idx nz)) = v * 2 + gain_pairs (map fst (drop (Suc (Suc idx)) nz))"
        and lm: "line_moves (\<lambda>k. (int r, int k)) target (drop idx nz) =
           \<lparr>tm_start = s, tm_end = (int r, int target), tm_value = v, tm_merged = True\<rparr>
           # \<lparr>tm_start = t, tm_end = (int r, int target), tm_value = v, tm_merged = True\<rparr>
           # line_moves (\<lambda>k. (int r, int k)) (Suc target) (drop (Suc (Suc idx)) nz)"
        by (simp_all add: d1 d2)
      from less.prems mp have tl: "target < length new_row"
        and p': "Suc target + length (merge_pairs (map fst (drop (Suc (Suc idx)) nz)))
                 \<le> length (new_row[target := v * 2])"
        by simp_all
      have m: "length nz - Suc (Suc idx) < length nz - idx" using True by simp
      have step: "merge_loop r nz idx target new_row gain mvs =
          merge_loop r nz (Suc (Suc idx)) (Suc target) (new_row[target := v * 2]) (gain + v * 2)
            (mvs @ [\<lparr>tm_start = s, tm_end = (int r, int target), tm_value = v, tm_merged = True\<rparr>,
                    \<lparr>tm_start = t, tm_end = (int r, int target), tm_value = v, tm_merged = True\<rparr>])"
        using mrg True tl n1 n2 by (subst merge_loop.simps) (auto simp: Let_def)
      show ?thesis
        using tl by (simp add: step less.hyps [OF m p'] mp gp lm take_Suc_conv_app_nth)
    qed
  qed
qed


lemma fst_non_zero_of: "map fst (non_zero_of r row) = filter (\<lambda>v. v \<noteq> 0) row"
proof -
  have "map snd (filter (\<lambda>(c, v). v \<noteq> 0) (enumerate n row)) = filter (\<lambda>v. v \<noteq> 0) row" for n
    by (induction row arbitrary: n) auto
  then show ?thesis
    by (simp add: non_zero_of_def comp_def case_prod_unfold)
qed

lemma length_merge_pairs: "length (merge_pairs vs) \<le> length vs"
  by (induction vs rule: merge_pairs.induct) auto

lemma length_merge_filter: "length (merge_pairs (filter P row)) \<le> length row"
  using length_merge_pairs [of "filter P row"] length_filter_le [of P row] by linarith

lemma length_slide_row: "length row \<le> GRID_SIZE \<Longrightarrow> length (slide_row row) = GRID_SIZE"
  using length_merge_filter [of "\<lambda>v. v \<noteq> 0" row] by (simp add: slide_row_def)

lemma merge_loop_row:
  assumes "length row \<le> GRID_SIZE"
  shows "merge_loop r (non_zero_of r row) 0 0 (replicate GRID_SIZE 0) gain mvs =
           Inr (slide_row row, gain + row_gain row, mvs @ row_moves r row)"
proof -
  have "length (merge_pairs (filter (\<lambda>v. v \<noteq> 0) row)) \<le> GRID_SIZE"
    using assms length_merge_filter [of "\<lambda>v. v \<noteq> 0" row] by linarith
  then show ?thesis
    using merge_loop_eq [of 0 0 "non_zero_of r row" "replicate GRID_SIZE 0" r gain mvs]
    by (simp add: fst_non_zero_of slide_row_def row_gain_def row_moves_def)
qed

lemma move_left_rows_eq:
  "\<forall>p \<in> set rows. length (snd p) \<le> GRID_SIZE \<Longrightarrow>
   move_left_rows rows nb gain mvd mvs =
     Inr \<lparr>r_board = nb @ map (\<lambda>p. slide_row (snd p)) rows,
          score_gain = gain + sum_list (map (\<lambda>p. row_gain (snd p)) rows),
          moved = (mvd \<or> (\<exists>p \<in> set rows. slide_row (snd p) \<noteq> snd p)),
          moves = mvs @ concat (map (\<lambda>p. row_moves (fst p) (snd p)) rows),
          spawn = None\<rparr>"
proof (induction rows arbitrary: nb gain mvd mvs)
  case Nil
  then show ?case by simp
next
  case (Cons p rows)
  obtain r row where p: "p = (r, row)" by (cases p)
  with Cons.prems have "length row \<le> GRID_SIZE" by simp
  then show ?case
    using Cons.prems by (auto simp: p merge_loop_row Cons.IH)
qed

lemma move_left_eq:
  assumes "\<forall>row \<in> set b. length row \<le> GRID_SIZE"
  shows "move_left b =
     Inr \<lparr>r_board = map slide_row b,
          score_gain = sum_list (map row_gain b),
          moved = (\<exists>row \<in> set b. slide_row row \<noteq> row),
          moves = concat (map (\<lambda>p. row_moves (fst p) (snd p)) (enumerate 0 b)),
          spawn = None\<rparr>"
proof -
  have "\<forall>p \<in> set (enumerate 0 b). length (snd p) \<le> GRID_SIZE"
    using assms by (auto simp: in_set_enumerate_eq)
  moreover have "map (\<lambda>p. slide_row (snd p)) (enumerate 0 b) = map slide_row b"
    using map_map [of slide_row snd "enumerate 0 b"] by (simp add: comp_def)
  moreover have "map (\<lambda>p. row_gain (snd p)) (enumerate 0 b) = map row_gain b"
    using map_map [of row_gain snd "enumerate 0 b"] by (simp add: comp_def)
  moreover have "snd ` set (enumerate 0 b) = set b"
    using set_map [of snd "enumerate 0 b"] by simp
  then have "(\<exists>p \<in> set (enumerate 0 b). slide_row (snd p) \<noteq> snd p)
      = (\<exists>row \<in> set b. slide_row row \<noteq> row)"
    by (metis (no_types, lifting) imageE imageI)
  ultimately show ?thesis
    by (simp add: move_left_def move_left_rows_eq)
qed

section \<open>The score ledger\<close>

text \<open>
  C8. \<open>_apply_score_gain\<close> with a gain of zero or less returns the game as it is: best and
  total score unchanged, no call of \<open>save_score_state\<close>. With a positive gain it adds the
  gain to the total score, raises the best score to the session score exactly when the
  session score is above it, and then calls \<open>save_score_state\<close> once with the new pair.
  (\<open>move\<close> adds the gain to the session score before the call.)
\<close>

theorem apply_score_gain_spec:
  "(gain \<le> 0 \<longrightarrow> apply_score_gain g gain = g) \<and>
   (0 < gain \<longrightarrow>
      total_score (apply_score_gain g gain) = total_score g + gain \<and>
      best_score (apply_score_gain g gain)
        = (if best_score g < score g then score g else best_score g) \<and>
      save_calls (store (apply_score_gain g gain))
        = save_calls (store g)
          @ [(best_score (apply_score_gain g gain), total_score (apply_score_gain g gain))])"
  by (simp add: apply_score_gain_def save_score_state_def Let_def)

theorem apply_score_gain_spec_witness:
  "(0::int) \<le> 0 \<and> apply_score_gain example_game 0 = example_game \<and>
   (0::int) < 16 \<and>
   total_score (apply_score_gain (example_game\<lparr>score := 24\<rparr>) 16) = 56 \<and>
   best_score (apply_score_gain (example_game\<lparr>score := 24\<rparr>) 16) = 24 \<and>
   save_calls (store (apply_score_gain (example_game\<lparr>score := 24\<rparr>) 16)) = [(24, 56)]"
  using apply_score_gain_spec [of 0 example_game]
    apply_score_gain_spec [of 16 "example_game\<lparr>score := 24\<rparr>"]
  by (simp add: example_game_def example_disk_def)

section \<open>Rejected commands\<close>

text \<open>
  C6. A direction outside the four recognised ones, and a recognised direction for which
  the move engine reports \<open>moved = False\<close>, make \<open>move\<close> return None and the game it was
  given: grid, session score, best score, total score, won, game over, last spawn and the
  store with its log of save calls are all as before.
\<close>

theorem rejected_move_is_noop:
  "(direction \<notin> directions \<longrightarrow> move g direction d = Inr (None, g)) \<and>
   (direction \<in> directions \<and> move_engine direction (board g) = Inr res \<and> \<not> moved res
      \<longrightarrow> move g direction d = Inr (None, g))"
  by (simp add: move_def)

theorem rejected_move_is_noop_witness:
  "''JUMP'' \<notin> directions \<and>
   move example_game ''JUMP'' example_draw = Inr (None, example_game) \<and>
   ''UP'' \<in> directions \<and>
   move_engine ''UP'' (board example_game) =
     Inr \<lparr>r_board = [[2, 2, 0, 0], [0, 0, 0, 0], [0, 0, 0, 0], [0, 0, 0, 0]],
          score_gain = 0, moved = False,
          moves = [\<lparr>tm_start = (0, 0), tm_end = (0, 0), tm_value = 2, tm_merged = False\<rparr>,
                   \<lparr>tm_start = (0, 1), tm_end = (0, 1), tm_value = 2, tm_merged = False\<rparr>],
          spawn = None\<rparr> \<and>
   move example_game ''UP'' example_draw = Inr (None, example_game)"
proof -
  let ?R = "\<lparr>r_board = [[2, 2, 0, 0], [0, 0, 0, 0], [0, 0, 0, 0], [0, 0, 0, 0]],
          score_gain = 0, moved = False,
          moves = [\<lparr>tm_start = (0, 0), tm_end = (0, 0), tm_value = 2, tm_merged = False\<rparr>,
                   \<lparr>tm_start = (0, 1), tm_end = (0, 1), tm_value = 2, tm_merged = False\<rparr>],
          spawn = None\<rparr>"
  have e: "move_engine ''UP'' (board example_game) = Inr ?R"
    by code_simp
  have j: "''JUMP'' \<notin> directions" and u: "''UP'' \<in> directions"
    by (simp_all add: directions_def)
  show ?thesis
    using rejected_move_is_noop [of "''JUMP''" example_game example_draw]
      rejected_move_is_noop [of "''UP''" example_game example_draw ?R] e j u
    by simp
qed

section \<open>Grids of four rows of four cells\<close>

lemma length_four: "length xs = 4 \<Longrightarrow> \<exists>a b c d. xs = [a, b, c, d]"
  by (auto simp: length_Suc_conv numeral_eq_Suc)

lemma is_grid_rows:
  assumes "is_grid b"
  shows "\<exists>r0 r1 r2 r3. b = [r0, r1, r2, r3] \<and> length r0 = 4 \<and> length r1 = 4
           \<and> length r2 = 4 \<and> length r3 = 4"
proof -
  from assms have "length b = 4" by (simp add: is_grid_def GRID_SIZE_def)
  then obtain r0 r1 r2 r3 where "b = [r0, r1, r2, r3]"
    using length_four by blast
  with assms show ?thesis by (simp add: is_grid_def GRID_SIZE_def)
qed

lemma is_grid_cells:
  assumes "is_grid b"
  shows "\<exists>a0 a1 a2 a3 b0 b1 b2 b3 c0 c1 c2 c3 d0 d1 d2 d3.
           b = [[a0, a1, a2, a3], [b0, b1, b2, b3], [c0, c1, c2, c3], [d0, d1, d2, d3]]"
proof -
  from is_grid_rows [OF assms] obtain r0 r1 r2 r3 where
    b: "b = [r0, r1, r2, r3]" and l: "length r0 = 4" "length r1 = 4" "length r2 = 4" "length r3 = 4"
    by blast
  from l(1) obtain a0 a1 a2 a3 where "r0 = [a0, a1, a2, a3]" using length_four by blast
  moreover from l(2) obtain b0 b1 b2 b3 where "r1 = [b0, b1, b2, b3]" using length_four by blast
  moreover from l(3) obtain c0 c1 c2 c3 where "r2 = [c0, c1, c2, c3]" using length_four by blast
  moreover from l(4) obtain d0 d1 d2 d3 where "r3 = [d0, d1, d2, d3]" using length_four by blast
  ultimately show ?thesis using b by blast
qed

lemma transpose_cells:
  "transpose_board [[a0, a1, a2, a3], [b0, b1, b2, b3], [c0, c1, c2, c3], [d0, d1, d2, d3]]
     = [[a0, b0, c0, d0], [a1, b1, c1, d1], [a2, b2, c2, d2], [a3, b3, c3, d3]]"
  by (simp add: transpose_board_def upt_rec)

lemma transpose_rows:
  assumes "length r0 = 4" "length r1 = 4" "length r2 = 4" "length r3 = 4"
  shows "transpose_board [r0, r1, r2, r3]
     = [[r0 ! 0, r1 ! 0, r2 ! 0, r3 ! 0], [r0 ! 1, r1 ! 1, r2 ! 1, r3 ! 1],
        [r0 ! 2, r1 ! 2, r2 ! 2, r3 ! 2], [r0 ! 3, r1 ! 3, r2 ! 3, r3 ! 3]]"
  using assms by (simp add: transpose_board_def upt_rec eval_nat_numeral)

lemma transpose_involution: "is_grid b \<Longrightarrow> transpose_board (transpose_board b) = b"
  using is_grid_cells [of b] by (auto simp: transpose_cells)

lemma is_grid_transpose: "is_grid b \<Longrightarrow> is_grid (transpose_board b)"
  using is_grid_cells [of b] by (auto simp: transpose_cells is_grid_def GRID_SIZE_def)

lemma is_grid_reverse: "is_grid b \<Longrightarrow> is_grid (map reverse b)"
  by (simp add: is_grid_def reverse_def list_all_iff)

lemma reverse_involution: "map reverse (map reverse b) = b"
  by (simp add: reverse_def comp_def)

lemma is_grid_slide: "is_grid b \<Longrightarrow> is_grid (map slide_row b)"
  by (simp add: is_grid_def list_all_iff length_slide_row)

lemma grid_rows_le: "is_grid b \<Longrightarrow> \<forall>row \<in> set b. length row \<le> GRID_SIZE"
  by (simp add: is_grid_def list_all_iff)

lemma map_fixed_iff: "(map f xs = xs) = (\<forall>x \<in> set xs. f x = x)"
  using map_eq_conv [of f xs id] by simp

lemma move_left_grid:
  assumes "is_grid b"
  shows "move_left b =
     Inr \<lparr>r_board = map slide_row b,
          score_gain = sum_list (map row_gain b),
          moved = (map slide_row b \<noteq> b),
          moves = concat (map (\<lambda>p. row_moves (fst p) (snd p)) (enumerate 0 b)),
          spawn = None\<rparr>"
  using move_left_eq [OF grid_rows_le [OF assms]] by (simp add: map_fixed_iff)

lemma move_engine_grid:
  assumes g: "is_grid b"
  shows "move_engine ''LEFT'' b =
     Inr \<lparr>r_board = map slide_row b,
          score_gain = sum_list (map row_gain b),
          moved = (map slide_row b \<noteq> b),
          moves = concat (map (\<lambda>p. row_moves (fst p) (snd p)) (enumerate 0 b)),
          spawn = None\<rparr>"
    and "move_engine ''RIGHT'' b =
     Inr \<lparr>r_board = map reverse (map slide_row (map reverse b)),
          score_gain = sum_list (map row_gain (map reverse b)),
          moved = (map slide_row (map reverse b) \<noteq> map reverse b),
          moves = map mirror_horizontal
            (concat (map (\<lambda>p. row_moves (fst p) (snd p)) (enumerate 0 (map reverse b)))),
          spawn = None\<rparr>"
    and "move_engine ''UP'' b =
     Inr \<lparr>r_board = transpose_board (map slide_row (transpose_board b)),
          score_gain = sum_list (map row_gain (transpose_board b)),
          moved = (map slide_row (transpose_board b) \<noteq> transpose_board b),
          moves = map transpose_move
            (concat (map (\<lambda>p. row_moves (fst p) (snd p)) (enumerate 0 (transpose_board b)))),
          spawn = None\<rparr>"
    and "move_engine ''DOWN'' b =
     Inr \<lparr>r_board = transpose_board (map reverse (map slide_row (map reverse (transpose_board b)))),
          score_gain = sum_list (map row_gain (map reverse (transpose_board b))),
          moved = (map slide_row (map reverse (transpose_board b)) \<noteq> map reverse (transpose_board b)),
          moves = map transpose_move (map mirror_horizontal
            (concat (map (\<lambda>p. row_moves (fst p) (snd p))
                       (enumerate 0 (map reverse (transpose_board b)))))),
          spawn = None\<rparr>"
proof -
  show "move_engine ''LEFT'' b =
     Inr \<lparr>r_board = map slide_row b,
          score_gain = sum_list (map row_gain b),
          moved = (map slide_row b \<noteq> b),
          moves = concat (map (\<lambda>p. row_moves (fst p) (snd p)) (enumerate 0 b)),
          spawn = None\<rparr>"
    by (simp add: move_engine_def move_left_grid [OF g])
  show "move_engine ''RIGHT'' b =
     Inr \<lparr>r_board = map reverse (map slide_row (map reverse b)),
          score_gain = sum_list (map row_gain (map reverse b)),
          moved = (map slide_row (map reverse b) \<noteq> map reverse b),
          moves = map mirror_horizontal
            (concat (map (\<lambda>p. row_moves (fst p) (snd p)) (enumerate 0 (map reverse b)))),
          spawn = None\<rparr>"
    by (simp add: move_engine_def move_left_grid [OF is_grid_reverse [OF g]])
  show "move_engine ''UP'' b =
     Inr \<lparr>r_board = transpose_board (map slide_row (transpose_board b)),
          score_gain = sum_list (map row_gain (transpose_board b)),
          moved = (map slide_row (transpose_board b) \<noteq> transpose_board b),
          moves = map transpose_move
            (concat (map (\<lambda>p. row_moves (fst p) (snd p)) (enumerate 0 (transpose_board b)))),
          spawn = None\<rparr>"
    by (simp add: move_engine_def move_left_grid [OF is_grid_transpose [OF g]])
  show "move_engine ''DOWN'' b =
     Inr \<lparr>r_board = transpose_board (map reverse (map slide_row (map reverse (transpose_board b)))),
          score_gain = sum_list (map row_gain (map reverse (transpose_board b))),
          moved = (map slide_row (map reverse (transpose_board b)) \<noteq> map reverse (transpose_board b)),
          moves = map transpose_move (map mirror_horizontal
            (concat (map (\<lambda>p. row_moves (fst p) (snd p))
                       (enumerate 0 (map reverse (transpose_board b)))))),
          spawn = None\<rparr>"
    by (simp add: move_engine_def move_left_grid [OF is_grid_reverse [OF is_grid_transpose [OF g]]])
qed

lemma reverse_swap: "(map reverse x = y) = (x = map reverse y)"
  using reverse_involution by metis

lemma transpose_swap: "is_grid x \<Longrightarrow> is_grid y \<Longrightarrow> (transpose_board x = y) = (x = transpose_board y)"
  using transpose_involution by metis

section \<open>The moved flag\<close>

text \<open>
  C1. For every grid of four rows of four integers (non-negative or not) and each of the
  four directions, the move engine returns a result, and its \<open>moved\<close> flag is False if and
  only if the board of the result is the board it was given.
\<close>

theorem moved_iff_grid_changed:
  assumes "is_grid b" and "direction \<in> directions"
  shows "\<exists>res. move_engine direction b = Inr res \<and> (\<not> moved res \<longleftrightarrow> r_board res = b)"
proof -
  note g = assms(1)
  note gt = is_grid_transpose [OF g]
  from assms(2) consider "direction = ''LEFT''" | "direction = ''RIGHT''"
    | "direction = ''UP''" | "direction = ''DOWN''"
    by (auto simp: directions_def)
  then show ?thesis
  proof cases
    case 1
    then show ?thesis by (simp add: move_engine_grid(1) [OF g])
  next
    case 2
    then show ?thesis by (simp add: move_engine_grid(2) [OF g] reverse_swap del: map_map)
  next
    case 3
    then show ?thesis
      by (simp add: move_engine_grid(3) [OF g] transpose_swap [OF is_grid_slide [OF gt] g] del: map_map)
  next
    case 4
    have "is_grid (map reverse (map slide_row (map reverse (transpose_board b))))"
      by (intro is_grid_reverse is_grid_slide gt)
    then show ?thesis
      using 4 by (simp add: move_engine_grid(4) [OF g] transpose_swap [OF _ g] reverse_swap del: map_map)
  qed
qed

theorem moved_iff_grid_changed_witness:
  "is_grid (board example_game) \<and> ''LEFT'' \<in> directions \<and>
   (\<exists>res. move_engine ''LEFT'' (board example_game) = Inr res
      \<and> (\<not> moved res \<longleftrightarrow> r_board res = board example_game))"
proof -
  have h1: "is_grid (board example_game)"
    by (simp add: example_game_def is_grid_def GRID_SIZE_def)
  have h2: "''LEFT'' \<in> directions"
    by (simp add: directions_def)
  show ?thesis
    using moved_iff_grid_changed [OF h1 h2] h1 h2 by simp
qed

section \<open>Merging in one slide\<close>

lemma line_moves_ends:
  "m \<in> set (line_moves dest k tiles) \<Longrightarrow> \<exists>j\<ge>k. tm_end m = dest j"
proof (induction dest k tiles rule: line_moves.induct)
  case (3 dest k v s w t rest)
  then show ?case
    by (auto split: if_splits intro: le_refl) (metis Suc_leD le_refl)+
qed auto

lemma filter_none: "(\<forall>x \<in> set xs. \<not> P x) \<Longrightarrow> filter P xs = []"
  by (induction xs) auto

lemma line_moves_later:
  assumes "inj dest"
  shows "filter (\<lambda>m. tm_end m = dest k) (line_moves dest (Suc k) tiles) = []"
proof (rule filter_none, rule ballI)
  fix m assume "m \<in> set (line_moves dest (Suc k) tiles)"
  then obtain j where "Suc k \<le> j" and "tm_end m = dest j"
    using line_moves_ends by blast
  with assms show "tm_end m \<noteq> dest k"
    by (auto dest: injD)
qed

lemma line_moves_at_most_two:
  "inj dest \<Longrightarrow> length (filter (\<lambda>m. tm_end m = e) (line_moves dest k tiles)) \<le> 2"
proof (induction dest k tiles rule: line_moves.induct)
  case (3 dest k v s w t rest)
  show ?case
  proof (cases "e = dest k")
    case True
    then show ?thesis
      using line_moves_later [OF "3.prems", of k] by simp
  next
    case False
    then show ?thesis
      using 3 by auto
  qed
qed auto

lemma row_moves_at_most_two:
  "length (filter (\<lambda>m. tm_end m = e) (row_moves r row)) \<le> 2"
  unfolding row_moves_def
  by (rule line_moves_at_most_two) (auto simp: inj_on_def)

lemma row_moves_rows:
  "m \<in> set (row_moves r row) \<Longrightarrow> fst (tm_end m) = int r"
  using line_moves_ends [of m "\<lambda>k. (int r, int k)" 0 "non_zero_of r row"]
  by (auto simp: row_moves_def)


lemma board_moves_rows:
  "m \<in> set (board_moves n b) \<Longrightarrow> int n \<le> fst (tm_end m)"
proof (induction b arbitrary: n)
  case Nil
  then show ?case by (simp add: board_moves_def)
next
  case (Cons row b)
  from Cons.prems have "m \<in> set (row_moves n row) \<or> m \<in> set (board_moves (Suc n) b)"
    by (simp add: board_moves_def)
  then show ?case
    using row_moves_rows [of m n row] Cons.IH [of "Suc n"] by auto
qed

lemma board_moves_at_most_two:
  "length (filter (\<lambda>m. tm_end m = e) (board_moves n b)) \<le> 2"
proof (induction b arbitrary: n)
  case Nil
  then show ?case by (simp add: board_moves_def)
next
  case (Cons row b)
  have split: "board_moves n (row # b) = row_moves n row @ board_moves (Suc n) b"
    by (simp add: board_moves_def)
  show ?case
  proof (cases "fst e = int n")
    case True
    have "filter (\<lambda>m. tm_end m = e) (board_moves (Suc n) b) = []"
      using board_moves_rows [of _ "Suc n" b] True by (intro filter_none) fastforce
    then show ?thesis
      using row_moves_at_most_two [of e n row] by (simp add: split)
  next
    case False
    have "filter (\<lambda>m. tm_end m = e) (row_moves n row) = []"
      using row_moves_rows [of _ n row] False by (intro filter_none) auto
    then show ?thesis
      using Cons.IH [of "Suc n"] by (simp add: split)
  qed
qed

text \<open>
  C2. Slide left of a board whose rows have at most four cells returns, row by row, the
  non-zero tiles paired once from the left (\<open>merge_pairs\<close>: the doubled tile is put out
  and not compared again) and padded with zeros; the gain is the sum of the doubled
  tiles; no cell is the destination of more than two movement records, so no tile made
  by a merge takes part in a second merge. The rows \<open>[2,2,2,0]\<close> and \<open>[4,0,4,4]\<close> slide to
  \<open>[4,2,0,0]\<close> with gain 4 and to \<open>[8,4,0,0]\<close> with gain 8.
\<close>

theorem slide_left_no_chain_merge:
  "((\<forall>row \<in> set b. length row \<le> GRID_SIZE) \<longrightarrow>
      (\<exists>res. move_left b = Inr res
         \<and> r_board res = map slide_row b
         \<and> score_gain res = sum_list (map row_gain b)
         \<and> length (filter (\<lambda>m. tm_end m = e) (moves res)) \<le> 2))
   \<and> move_left [[2, 2, 2, 0]] =
       Inr \<lparr>r_board = [[4, 2, 0, 0]], score_gain = 4, moved = True,
            moves = [\<lparr>tm_start = (0, 0), tm_end = (0, 0), tm_value = 2, tm_merged = True\<rparr>,
                     \<lparr>tm_start = (0, 1), tm_end = (0, 0), tm_value = 2, tm_merged = True\<rparr>,
                     \<lparr>tm_start = (0, 2), tm_end = (0, 1), tm_value = 2, tm_merged = False\<rparr>],
            spawn = None\<rparr>
   \<and> move_left [[4, 0, 4, 4]] =
       Inr \<lparr>r_board = [[8, 4, 0, 0]], score_gain = 8, moved = True,
            moves = [\<lparr>tm_start = (0, 0), tm_end = (0, 0), tm_value = 4, tm_merged = True\<rparr>,
                     \<lparr>tm_start = (0, 2), tm_end = (0, 0), tm_value = 4, tm_merged = True\<rparr>,
                     \<lparr>tm_start = (0, 3), tm_end = (0, 1), tm_value = 4, tm_merged = False\<rparr>],
            spawn = None\<rparr>"
proof (intro conjI impI)
  assume "\<forall>row \<in> set b. length row \<le> GRID_SIZE"
  then show "\<exists>res. move_left b = Inr res
         \<and> r_board res = map slide_row b
         \<and> score_gain res = sum_list (map row_gain b)
         \<and> length (filter (\<lambda>m. tm_end m = e) (moves res)) \<le> 2"
    using board_moves_at_most_two [of e 0 b]
    by (simp add: move_left_eq board_moves_def)
next
  show "move_left [[2, 2, 2, 0]] =
       Inr \<lparr>r_board = [[4, 2, 0, 0]], score_gain = 4, moved = True,
            moves = [\<lparr>tm_start = (0, 0), tm_end = (0, 0), tm_value = 2, tm_merged = True\<rparr>,
                     \<lparr>tm_start = (0, 1), tm_end = (0, 0), tm_value = 2, tm_merged = True\<rparr>,
                     \<lparr>tm_start = (0, 2), tm_end = (0, 1), tm_value = 2, tm_merged = False\<rparr>],
            spawn = None\<rparr>"
    by code_simp
next
  show "move_left [[4, 0, 4, 4]] =
       Inr \<lparr>r_board = [[8, 4, 0, 0]], score_gain = 8, moved = True,
            moves = [\<lparr>tm_start = (0, 0), tm_end = (0, 0), tm_value = 4, tm_merged = True\<rparr>,
                     \<lparr>tm_start = (0, 2), tm_end = (0, 0), tm_value = 4, tm_merged = True\<rparr>,
                     \<lparr>tm_start = (0, 3), tm_end = (0, 1), tm_value = 4, tm_merged = False\<rparr>],
            spawn = None\<rparr>"
    by code_simp
qed

theorem slide_left_no_chain_merge_witness:
  "length [2, 2, 4, 0 :: int] \<le> GRID_SIZE \<and>
   (\<exists>res. move_left [[2, 2, 4, 0]] = Inr res
      \<and> r_board res = [[4, 4, 0, 0]] \<and> score_gain res = 4
      \<and> length (filter (\<lambda>m. tm_end m = (0, 0)) (moves res)) \<le> 2)"
proof -
  have h: "\<forall>row \<in> set [[2, 2, 4, 0 :: int]]. length row \<le> GRID_SIZE"
    by (simp add: GRID_SIZE_def)
  have s: "map slide_row [[2, 2, 4, 0]] = [[4, 4, 0, 0]]"
    and g: "sum_list (map row_gain [[2, 2, 4, 0]]) = 4"
    by (simp_all add: slide_row_def row_gain_def GRID_SIZE_def eval_nat_numeral)
  show ?thesis
    using slide_left_no_chain_merge [of "[[2, 2, 4, 0]]" "(0, 0)"] h s g by simp
qed

section \<open>Spawning\<close>

lemma covers_grid_grid: "is_grid b \<Longrightarrow> covers_grid b"
  by (auto simp: is_grid_def covers_grid_def list_all_iff)

lemma set_empty_cells:
  "set (empty_cells b) = {(r, c). r < GRID_SIZE \<and> c < GRID_SIZE \<and> b ! r ! c = 0}"
  by (auto simp: empty_cells_def)

lemma grid_has_zero:
  assumes "is_grid b"
  shows "(\<exists>row \<in> set b. 0 \<in> set row) = (empty_cells b \<noteq> [])"
proof
  assume "\<exists>row \<in> set b. 0 \<in> set row"
  then obtain row where row: "row \<in> set b" and z: "0 \<in> set row" by blast
  from row obtain r where r: "r < length b" "row = b ! r"
    by (auto simp: in_set_conv_nth)
  from z obtain c where c: "c < length row" "row ! c = 0"
    by (auto simp: in_set_conv_nth)
  from assms row have "length row = GRID_SIZE"
    by (simp add: is_grid_def list_all_iff)
  with assms r c have "(r, c) \<in> set (empty_cells b)"
    by (simp add: set_empty_cells is_grid_def)
  then show "empty_cells b \<noteq> []" by auto
next
  assume "empty_cells b \<noteq> []"
  then obtain p where "p \<in> set (empty_cells b)"
    by (cases "empty_cells b") auto
  then have rc: "fst p < GRID_SIZE" "snd p < GRID_SIZE" "b ! fst p ! snd p = 0"
    by (auto simp: set_empty_cells)
  from assms rc(1) have m: "b ! fst p \<in> set b" and l: "length (b ! fst p) = GRID_SIZE"
    by (simp_all add: is_grid_def list_all_iff)
  from l rc(2,3) have "0 \<in> set (b ! fst p)"
    by (metis nth_mem)
  with m show "\<exists>row \<in> set b. 0 \<in> set row" by blast
qed

lemma is_grid_update:
  assumes "is_grid b"
  shows "is_grid (b[r := (b ! r)[c := v]])"
proof (cases "r < length b")
  case True
  then have "length (b ! r) = GRID_SIZE"
    using assms by (simp add: is_grid_def list_all_iff)
  moreover have "set (b[r := (b ! r)[c := v]]) \<subseteq> insert ((b ! r)[c := v]) (set b)"
    by (rule set_update_subset_insert)
  ultimately show ?thesis
    using assms by (auto simp: is_grid_def list_all_iff)
next
  case False
  then have "b[r := (b ! r)[c := v]] = b"
    by (intro list_update_beyond) simp
  then show ?thesis using assms by simp
qed

lemma grid_update_cell:
  assumes "is_grid b" "r' < GRID_SIZE" "c' < GRID_SIZE"
  shows "b[r := (b ! r)[c := v]] ! r' ! c' = (if r' = r \<and> c' = c then v else b ! r' ! c')"
proof -
  have l: "r' < length b" and "length (b ! r') = GRID_SIZE"
    using assms by (simp_all add: is_grid_def list_all_iff)
  then have "c' < length (b ! r')" using assms by simp
  then show ?thesis
    using l by (cases "r' = r") (simp_all add: nth_list_update)
qed

lemma spawn_tile_some:
  assumes "is_grid (board g)" and "\<exists>row \<in> set (board g). 0 \<in> set row"
  shows "\<exists>r c v. r < GRID_SIZE \<and> c < GRID_SIZE \<and> board g ! r ! c = 0 \<and> (v = 2 \<or> v = 4)
           \<and> spawn_tile g d =
               Inr (Some (r, c, v),
                    g\<lparr>board := (board g)[r := (board g ! r)[c := v]],
                      last_spawn := Some (r, c, v)\<rparr>)"
proof -
  have ne: "empty_cells (board g) \<noteq> []"
    using grid_has_zero [OF assms(1)] assms(2) by simp
  define k where "k = pick d mod length (empty_cells (board g))"
  define r where "r = fst (empty_cells (board g) ! k)"
  define c where "c = snd (empty_cells (board g) ! k)"
  define v :: int where "v = (if unit_draw d < 1 / 10 then 4 else 2)"
  have "k < length (empty_cells (board g))"
    using ne by (simp add: k_def)
  then have "(r, c) \<in> set (empty_cells (board g))"
    by (simp add: r_def c_def)
  then have rc: "r < GRID_SIZE" "c < GRID_SIZE" "board g ! r ! c = 0"
    by (auto simp: set_empty_cells)
  have v: "v = 2 \<or> v = 4" by (simp add: v_def)
  have sp: "spawn_tile g d =
      Inr (Some (r, c, v),
           g\<lparr>board := (board g)[r := (board g ! r)[c := v]], last_spawn := Some (r, c, v)\<rparr>)"
    using ne covers_grid_grid [OF assms(1)]
    by (simp add: spawn_tile_def Let_def k_def r_def c_def v_def)
  show ?thesis
    apply (rule exI [of _ r], rule exI [of _ c], rule exI [of _ v])
    using rc v sp by simp
qed

lemma spawn_tile_none:
  assumes "is_grid (board g)" and "\<not> (\<exists>row \<in> set (board g). 0 \<in> set row)"
  shows "spawn_tile g d = Inr (None, g)"
proof -
  have "empty_cells (board g) = []"
    using grid_has_zero [OF assms(1)] assms(2) by simp
  then show ?thesis
    using covers_grid_grid [OF assms(1)] by (simp add: spawn_tile_def)
qed

text \<open>
  C10. On a grid of four rows of four cells with at least one zero cell, \<open>_spawn_tile\<close>
  returns \<open>(r, c, v)\<close> for a cell inside the grid that held zero, with \<open>v\<close> equal to 2 or
  4; the new board is the old one with that one cell set to \<open>v\<close>, every other cell as it
  was, and the triple is stored as the last spawn. On a grid with no zero cell it returns
  None and the game as it was.
\<close>

theorem spawn_tile_frame:
  assumes "is_grid (board g)"
  shows "((\<exists>row \<in> set (board g). 0 \<in> set row) \<longrightarrow>
           (\<exists>r c v. r < GRID_SIZE \<and> c < GRID_SIZE \<and> board g ! r ! c = 0 \<and> (v = 2 \<or> v = 4)
              \<and> spawn_tile g d =
                  Inr (Some (r, c, v),
                       g\<lparr>board := (board g)[r := (board g ! r)[c := v]],
                         last_spawn := Some (r, c, v)\<rparr>)
              \<and> (\<forall>r' \<in> set [0..<GRID_SIZE]. \<forall>c' \<in> set [0..<GRID_SIZE].
                    (board g)[r := (board g ! r)[c := v]] ! r' ! c'
                      = (if r' = r \<and> c' = c then v else board g ! r' ! c'))))
       \<and> (\<not> (\<exists>row \<in> set (board g). 0 \<in> set row) \<longrightarrow> spawn_tile g d = Inr (None, g))"
proof (intro conjI impI)
  assume "\<exists>row \<in> set (board g). 0 \<in> set row"
  from spawn_tile_some [OF assms this, of d] obtain r c v where
    f: "r < GRID_SIZE \<and> c < GRID_SIZE \<and> board g ! r ! c = 0 \<and> (v = 2 \<or> v = 4)
           \<and> spawn_tile g d =
               Inr (Some (r, c, v),
                    g\<lparr>board := (board g)[r := (board g ! r)[c := v]],
                      last_spawn := Some (r, c, v)\<rparr>)"
    by blast
  have fr: "\<forall>r' \<in> set [0..<GRID_SIZE]. \<forall>c' \<in> set [0..<GRID_SIZE].
      (board g)[r := (board g ! r)[c := v]] ! r' ! c'
        = (if r' = r \<and> c' = c then v else board g ! r' ! c')"
    using grid_update_cell [OF assms] by simp
  show "\<exists>r c v. r < GRID_SIZE \<and> c < GRID_SIZE \<and> board g ! r ! c = 0 \<and> (v = 2 \<or> v = 4)
              \<and> spawn_tile g d =
                  Inr (Some (r, c, v),
                       g\<lparr>board := (board g)[r := (board g ! r)[c := v]],
                         last_spawn := Some (r, c, v)\<rparr>)
              \<and> (\<forall>r' \<in> set [0..<GRID_SIZE]. \<forall>c' \<in> set [0..<GRID_SIZE].
                    (board g)[r := (board g ! r)[c := v]] ! r' ! c'
                      = (if r' = r \<and> c' = c then v else board g ! r' ! c'))"
    apply (rule exI [of _ r], rule exI [of _ c], rule exI [of _ v])
    using f fr by simp
next
  assume "\<not> (\<exists>row \<in> set (board g). 0 \<in> set row)"
  then show "spawn_tile g d = Inr (None, g)"
    by (rule spawn_tile_none [OF assms])
qed

theorem spawn_tile_frame_witness:
  "is_grid (board example_game) \<and> (\<exists>row \<in> set (board example_game). 0 \<in> set row) \<and>
   (\<exists>r c v. r < GRID_SIZE \<and> c < GRID_SIZE \<and> board example_game ! r ! c = 0 \<and> (v = 2 \<or> v = 4)
      \<and> spawn_tile example_game example_draw =
          Inr (Some (r, c, v),
               example_game\<lparr>board := (board example_game)[r := (board example_game ! r)[c := v]],
                            last_spawn := Some (r, c, v)\<rparr>)) \<and>
   is_grid (board full_game) \<and> \<not> (\<exists>row \<in> set (board full_game). 0 \<in> set row) \<and>
   spawn_tile full_game example_draw = Inr (None, full_game)"
proof -
  have h1: "is_grid (board example_game)"
    by (simp add: example_game_def is_grid_def GRID_SIZE_def)
  have h2: "\<exists>row \<in> set (board example_game). 0 \<in> set row"
    by (simp add: example_game_def)
  have h3: "is_grid (board full_game)"
    by (simp add: full_game_def is_grid_def GRID_SIZE_def)
  have h4: "\<not> (\<exists>row \<in> set (board full_game). 0 \<in> set row)"
    by (simp add: full_game_def)
  from spawn_tile_frame [OF h1, of example_draw] h2
  have a: "\<exists>r c v. r < GRID_SIZE \<and> c < GRID_SIZE \<and> board example_game ! r ! c = 0 \<and> (v = 2 \<or> v = 4)
      \<and> spawn_tile example_game example_draw =
          Inr (Some (r, c, v),
               example_game\<lparr>board := (board example_game)[r := (board example_game ! r)[c := v]],
                            last_spawn := Some (r, c, v)\<rparr>)"
    by blast
  from spawn_tile_frame [OF h3, of example_draw] h4
  have b: "spawn_tile full_game example_draw = Inr (None, full_game)"
    by blast
  show ?thesis using h1 h2 h3 h4 a b by blast
qed

section \<open>One command and a sequence of commands\<close>

lemma cell_grid:
  "is_grid b \<Longrightarrow> r < GRID_SIZE \<Longrightarrow> c < GRID_SIZE \<Longrightarrow> cell b (r, c) = Inr (b ! r ! c)"
  by (simp add: cell_def is_grid_def list_all_iff)

lemma scan_pairs_grid:
  assumes "is_grid b"
  shows "(\<forall>pq \<in> set ps. fst (fst pq) < GRID_SIZE \<and> snd (fst pq) < GRID_SIZE
            \<and> fst (snd pq) < GRID_SIZE \<and> snd (snd pq) < GRID_SIZE) \<Longrightarrow>
         scan_pairs b ps =
           Inr (\<exists>pq \<in> set ps. b ! fst (fst pq) ! snd (fst pq) = b ! fst (snd pq) ! snd (snd pq))"
proof (induction ps)
  case Nil
  then show ?case by simp
next
  case (Cons pq ps)
  obtain r c r' c' where pq: "pq = ((r, c), (r', c'))"
    by (metis surj_pair)
  with Cons.prems have "r < GRID_SIZE" "c < GRID_SIZE" "r' < GRID_SIZE" "c' < GRID_SIZE"
    by simp_all
  then show ?case
    using Cons by (simp add: pq cell_grid [OF assms])
qed

lemma can_move_grid:
  assumes "is_grid b"
  shows "can_move b = Inr (\<not> no_moves_left b)"
proof -
  have r: "scan_pairs b row_pairs =
      Inr (\<exists>pq \<in> set row_pairs. b ! fst (fst pq) ! snd (fst pq) = b ! fst (snd pq) ! snd (snd pq))"
    by (rule scan_pairs_grid [OF assms]) (auto simp: row_pairs_def)
  have c: "scan_pairs b col_pairs =
      Inr (\<exists>pq \<in> set col_pairs. b ! fst (fst pq) ! snd (fst pq) = b ! fst (snd pq) ! snd (snd pq))"
    by (rule scan_pairs_grid [OF assms]) (auto simp: col_pairs_def)
  have r': "(\<exists>pq \<in> set row_pairs. b ! fst (fst pq) ! snd (fst pq) = b ! fst (snd pq) ! snd (snd pq))
      = (\<not> list_all (\<lambda>r. list_all (\<lambda>c. b ! r ! c \<noteq> b ! r ! (c + 1)) [0..<GRID_SIZE - 1])
           [0..<GRID_SIZE])"
    by (auto simp: row_pairs_def list_all_iff)
  have c': "(\<exists>pq \<in> set col_pairs. b ! fst (fst pq) ! snd (fst pq) = b ! fst (snd pq) ! snd (snd pq))
      = (\<not> list_all (\<lambda>c. list_all (\<lambda>r. b ! r ! c \<noteq> b ! (r + 1) ! c) [0..<GRID_SIZE - 1])
           [0..<GRID_SIZE])"
    by (auto simp: col_pairs_def list_all_iff)
  show ?thesis
    unfolding can_move_def r c r' c' no_moves_left_def
    by (simp add: list_ex_iff list_all_iff [of "\<lambda>row. 0 \<notin> set row"] split: bool.splits)
qed

lemma sum_merge_pairs: "sum_list (merge_pairs vs) = sum_list vs"
  by (induction vs rule: merge_pairs.induct) auto

lemma sum_filter_non_zero: "sum_list (filter (\<lambda>v. v \<noteq> 0) row) = sum_list (row :: int list)"
  by (induction row) auto

lemma sum_slide_row: "sum_list (slide_row row) = sum_list row"
  by (simp add: slide_row_def sum_merge_pairs sum_filter_non_zero sum_list_replicate)

lemma grid_sum_slide: "grid_sum (map slide_row b) = grid_sum b"
  by (simp add: grid_sum_def comp_def sum_slide_row)

lemma grid_sum_reverse: "grid_sum (map reverse b) = grid_sum b"
  by (simp add: grid_sum_def comp_def reverse_def)

lemma grid_sum_transpose: "is_grid b \<Longrightarrow> grid_sum (transpose_board b) = grid_sum b"
  using is_grid_cells [of b] by (auto simp: transpose_cells grid_sum_def)

lemma sum_list_update_int:
  "k < length xs \<Longrightarrow> sum_list (xs[k := x]) = sum_list xs + x - (xs ! k :: int)"
  by (induction xs arbitrary: k) (auto split: nat.splits)

lemma grid_sum_update:
  assumes "is_grid b" "r < GRID_SIZE" "c < GRID_SIZE"
  shows "grid_sum (b[r := (b ! r)[c := v]]) = grid_sum b + v - b ! r ! c"
proof -
  have l: "r < length b" and "length (b ! r) = GRID_SIZE"
    using assms by (simp_all add: is_grid_def list_all_iff)
  then have c: "c < length (b ! r)" using assms by simp
  have "grid_sum (b[r := (b ! r)[c := v]]) = sum_list ((map sum_list b)[r := sum_list ((b ! r)[c := v])])"
    by (simp add: grid_sum_def map_update)
  also have "\<dots> = sum_list (map sum_list b) + sum_list ((b ! r)[c := v]) - map sum_list b ! r"
    using l by (simp add: sum_list_update_int)
  also have "\<dots> = grid_sum b + v - b ! r ! c"
    using l c by (simp add: sum_list_update_int grid_sum_def)
  finally show ?thesis .
qed

lemma reaches_2048_cells:
  assumes "is_grid b"
  shows "reaches_2048 b = (\<exists>r < GRID_SIZE. \<exists>c < GRID_SIZE. 2048 \<le> b ! r ! c)"
proof
  assume "reaches_2048 b"
  then obtain row x where row: "row \<in> set b" and x: "x \<in> set row" "2048 \<le> x"
    by (auto simp: reaches_2048_def list_ex_iff)
  from row obtain r where r: "r < length b" "row = b ! r"
    by (auto simp: in_set_conv_nth)
  from x obtain c where c: "c < length row" "row ! c = x"
    by (auto simp: in_set_conv_nth)
  from assms row have "length row = GRID_SIZE"
    by (simp add: is_grid_def list_all_iff)
  with assms r c x show "\<exists>r < GRID_SIZE. \<exists>c < GRID_SIZE. 2048 \<le> b ! r ! c"
    by (auto simp: is_grid_def)
next
  assume "\<exists>r < GRID_SIZE. \<exists>c < GRID_SIZE. 2048 \<le> b ! r ! c"
  then obtain r c where rc: "r < GRID_SIZE" "c < GRID_SIZE" "2048 \<le> b ! r ! c" by blast
  from assms rc(1) have m: "b ! r \<in> set b" and l: "length (b ! r) = GRID_SIZE"
    by (simp_all add: is_grid_def list_all_iff)
  from l rc(2) have "b ! r ! c \<in> set (b ! r)" by simp
  with m rc(3) show "reaches_2048 b"
    by (auto simp: reaches_2048_def list_ex_iff)
qed

lemma reaches_2048_update:
  assumes "is_grid b" "r < GRID_SIZE" "c < GRID_SIZE" "b ! r ! c = 0" "v = 2 \<or> v = 4"
  shows "reaches_2048 (b[r := (b ! r)[c := v]]) = reaches_2048 b"
proof -
  let ?b' = "b[r := (b ! r)[c := v]]"
  have cellwise: "(2048 \<le> ?b' ! r' ! c') = (2048 \<le> b ! r' ! c')"
    if "r' < GRID_SIZE" "c' < GRID_SIZE" for r' c'
    using assms(4,5) by (auto simp: grid_update_cell [OF assms(1) that])
  have "reaches_2048 ?b' = (\<exists>r' < GRID_SIZE. \<exists>c' < GRID_SIZE. 2048 \<le> ?b' ! r' ! c')"
    by (rule reaches_2048_cells [OF is_grid_update [OF assms(1)]])
  also have "\<dots> = (\<exists>r' < GRID_SIZE. \<exists>c' < GRID_SIZE. 2048 \<le> b ! r' ! c')"
    using cellwise by blast
  also have "\<dots> = reaches_2048 b"
    by (rule reaches_2048_cells [OF assms(1), symmetric])
  finally show ?thesis .
qed

lemma spawn_tile_grid:
  assumes "is_grid (board g)"
  shows "\<exists>sp g'. spawn_tile g d = Inr (sp, g') \<and> is_grid (board g')
           \<and> won g' = won g
           \<and> grid_sum (board g') = grid_sum (board g) + spawn_value sp
           \<and> reaches_2048 (board g') = reaches_2048 (board g)"
proof (cases "\<exists>row \<in> set (board g). 0 \<in> set row")
  case True
  from spawn_tile_some [OF assms True, of d] obtain r c v where
    rc: "r < GRID_SIZE" "c < GRID_SIZE" "board g ! r ! c = 0" and v: "v = 2 \<or> v = 4"
    and sp: "spawn_tile g d =
               Inr (Some (r, c, v),
                    g\<lparr>board := (board g)[r := (board g ! r)[c := v]],
                      last_spawn := Some (r, c, v)\<rparr>)"
    by blast
  show ?thesis
    unfolding sp
    using is_grid_update [OF assms, of r c v] grid_sum_update [OF assms rc(1,2), of v]
      reaches_2048_update [OF assms rc v] rc(3)
    by (simp add: spawn_value_def)
next
  case False
  show ?thesis
    unfolding spawn_tile_none [OF assms False]
    using assms by (simp add: spawn_value_def)
qed

lemma move_engine_total:
  assumes g: "is_grid b" and d: "direction \<in> directions"
  shows "\<exists>res. move_engine direction b = Inr res \<and> is_grid (r_board res)
           \<and> grid_sum (r_board res) = grid_sum b \<and> spawn res = None"
proof -
  note gt = is_grid_transpose [OF g]
  from d consider "direction = ''LEFT''" | "direction = ''RIGHT''"
    | "direction = ''UP''" | "direction = ''DOWN''"
    by (auto simp: directions_def)
  then show ?thesis
  proof cases
    case 1
    then show ?thesis
      by (simp add: move_engine_grid(1) [OF g] is_grid_slide [OF g] grid_sum_slide)
  next
    case 2
    then show ?thesis
      using is_grid_reverse [OF is_grid_slide [OF is_grid_reverse [OF g]]]
      by (simp add: move_engine_grid(2) [OF g] grid_sum_slide grid_sum_reverse del: map_map)
  next
    case 3
    then show ?thesis
      using is_grid_transpose [OF is_grid_slide [OF gt]]
      by (simp add: move_engine_grid(3) [OF g] grid_sum_slide
          grid_sum_transpose [OF is_grid_slide [OF gt]] grid_sum_transpose [OF g] del: map_map)
  next
    case 4
    have s: "is_grid (map reverse (map slide_row (map reverse (transpose_board b))))"
      by (intro is_grid_reverse is_grid_slide gt)
    show ?thesis
      using 4 is_grid_transpose [OF s]
      by (simp add: move_engine_grid(4) [OF g] grid_sum_transpose [OF s] grid_sum_reverse
          grid_sum_slide grid_sum_transpose [OF g] del: map_map)
  qed
qed

lemma board_after_slide: "board (after_slide g res) = r_board res"
  by (simp add: after_slide_def apply_score_gain_def Let_def)

lemma won_after_slide: "won (after_slide g res) = (won g \<or> reaches_2048 (r_board res))"
  by (simp add: after_slide_def apply_score_gain_def Let_def)

lemma move_accepted:
  assumes "direction \<in> directions" "move_engine direction (board g) = Inr res" "moved res"
  shows "move g direction d =
     (case spawn_tile (after_slide g res) d of
        Inl e \<Rightarrow> Inl e
      | Inr (sp, g5) \<Rightarrow>
          (case can_move (board g5) of
             Inl e \<Rightarrow> Inl e
           | Inr cm \<Rightarrow>
               Inr (Some (res\<lparr>r_board := board g5, spawn := sp\<rparr>), g5\<lparr>game_over := \<not> cm\<rparr>)))"
  using assms by (simp add: move_def after_slide_def Let_def)

lemma move_grid:
  assumes g: "is_grid (board g)"
  shows "\<exists>r g'. move g direction d = Inr (r, g') \<and> is_grid (board g')
     \<and> (r = None \<longrightarrow> g' = g)
     \<and> (\<forall>res. r = Some res \<longrightarrow>
            game_over g' = no_moves_left (board g')
          \<and> won g' = (won g \<or> reaches_2048 (board g'))
          \<and> grid_sum (board g') = grid_sum (board g) + spawn_value (spawn res)
          \<and> r_board res = board g')"
proof (cases "direction \<in> directions")
  case False
  then show ?thesis using g by (simp add: move_def)
next
  case True
  from move_engine_total [OF g True] obtain res where
    e: "move_engine direction (board g) = Inr res" and rg: "is_grid (r_board res)"
    and rs: "grid_sum (r_board res) = grid_sum (board g)"
    by blast
  show ?thesis
  proof (cases "moved res")
    case False
    then show ?thesis using g True e by (simp add: move_def)
  next
    case mv: True
    have "is_grid (board (after_slide g res))"
      using rg by (simp add: board_after_slide)
    from spawn_tile_grid [OF this, of d] obtain sp g5 where
      sp: "spawn_tile (after_slide g res) d = Inr (sp, g5)" and g5: "is_grid (board g5)"
      and w5: "won g5 = won (after_slide g res)"
      and s5: "grid_sum (board g5) = grid_sum (board (after_slide g res)) + spawn_value sp"
      and r5: "reaches_2048 (board g5) = reaches_2048 (board (after_slide g res))"
      by blast
    have m: "move g direction d =
        Inr (Some (res\<lparr>r_board := board g5, spawn := sp\<rparr>),
             g5\<lparr>game_over := no_moves_left (board g5)\<rparr>)"
      by (simp add: move_accepted [OF True e mv] sp can_move_grid [OF g5])
    show ?thesis
      unfolding m using g5 w5 s5 r5 rs
      by (simp add: board_after_slide won_after_slide)
  qed
qed

lemma play_grid:
  "is_grid (board g) \<Longrightarrow>
   \<exists>rs g'. play g cmds = Inr (rs, g') \<and> is_grid (board g') \<and> (won g \<longrightarrow> won g')
     \<and> grid_sum (board g')
         = grid_sum (board g) + sum_list (map (\<lambda>res. spawn_value (spawn res)) rs)"
proof (induction cmds arbitrary: g)
  case Nil
  then show ?case by simp
next
  case (Cons cmd cmds)
  obtain direction d where cmd: "cmd = (direction, d)" by (cases cmd)
  from move_grid [OF Cons.prems, of direction d] obtain r g1 where
    m: "move g direction d = Inr (r, g1)" and g1: "is_grid (board g1)"
    and n: "r = None \<longrightarrow> g1 = g"
    and a: "\<forall>res. r = Some res \<longrightarrow>
              won g1 = (won g \<or> reaches_2048 (board g1))
            \<and> grid_sum (board g1) = grid_sum (board g) + spawn_value (spawn res)"
    by blast
  from Cons.IH [OF g1] obtain rs g2 where
    p: "play g1 cmds = Inr (rs, g2)" and g2: "is_grid (board g2)"
    and w: "won g1 \<longrightarrow> won g2"
    and s: "grid_sum (board g2)
         = grid_sum (board g1) + sum_list (map (\<lambda>res. spawn_value (spawn res)) rs)"
    by blast
  show ?case
  proof (cases r)
    case None
    then show ?thesis using m p g2 w s n by (simp add: cmd)
  next
    case (Some res)
    then show ?thesis using m p g2 w s a by (simp add: cmd)
  qed
qed

lemma slide_row_fixed:
  "a \<noteq> 0 \<Longrightarrow> b \<noteq> 0 \<Longrightarrow> c \<noteq> 0 \<Longrightarrow> d \<noteq> 0 \<Longrightarrow>
   a \<noteq> b \<Longrightarrow> b \<noteq> c \<Longrightarrow> c \<noteq> d \<Longrightarrow>
   slide_row [a, b, c, d] = [a, b, c, d]"
  by (simp add: slide_row_def GRID_SIZE_def)

lemma slide_row_fixed_rev:
  "a \<noteq> 0 \<Longrightarrow> b \<noteq> 0 \<Longrightarrow> c \<noteq> 0 \<Longrightarrow> d \<noteq> 0 \<Longrightarrow>
   b \<noteq> a \<Longrightarrow> c \<noteq> b \<Longrightarrow> d \<noteq> c \<Longrightarrow>
   slide_row [a, b, c, d] = [a, b, c, d]"
  by (simp add: slide_row_def GRID_SIZE_def)

lemma no_moves_left_cells:
  "no_moves_left [[a0, a1, a2, a3], [b0, b1, b2, b3], [c0, c1, c2, c3], [d0, d1, d2, d3]] =
    (a0 \<noteq> 0 \<and> a1 \<noteq> 0 \<and> a2 \<noteq> 0 \<and> a3 \<noteq> 0
     \<and> b0 \<noteq> 0 \<and> b1 \<noteq> 0 \<and> b2 \<noteq> 0 \<and> b3 \<noteq> 0
     \<and> c0 \<noteq> 0 \<and> c1 \<noteq> 0 \<and> c2 \<noteq> 0 \<and> c3 \<noteq> 0
     \<and> d0 \<noteq> 0 \<and> d1 \<noteq> 0 \<and> d2 \<noteq> 0 \<and> d3 \<noteq> 0
     \<and> a0 \<noteq> a1 \<and> a1 \<noteq> a2 \<and> a2 \<noteq> a3 \<and> b0 \<noteq> b1 \<and> b1 \<noteq> b2 \<and> b2 \<noteq> b3
     \<and> c0 \<noteq> c1 \<and> c1 \<noteq> c2 \<and> c2 \<noteq> c3 \<and> d0 \<noteq> d1 \<and> d1 \<noteq> d2 \<and> d2 \<noteq> d3
     \<and> a0 \<noteq> b0 \<and> b0 \<noteq> c0 \<and> c0 \<noteq> d0 \<and> a1 \<noteq> b1 \<and> b1 \<noteq> c1 \<and> c1 \<noteq> d1
     \<and> a2 \<noteq> b2 \<and> b2 \<noteq> c2 \<and> c2 \<noteq> d2 \<and> a3 \<noteq> b3 \<and> b3 \<noteq> c3 \<and> c3 \<noteq> d3)"
  by (simp add: no_moves_left_def GRID_SIZE_def upt_rec)

lemma stuck_rows:
  assumes "is_grid b" "no_moves_left b"
  shows "map slide_row b = b"
    and "map slide_row (map reverse b) = map reverse b"
    and "map slide_row (transpose_board b) = transpose_board b"
    and "map slide_row (map reverse (transpose_board b)) = map reverse (transpose_board b)"
proof -
  from is_grid_cells [OF assms(1)] obtain a0 a1 a2 a3 b0 b1 b2 b3 c0 c1 c2 c3 d0 d1 d2 d3
    where b: "b = [[a0, a1, a2, a3], [b0, b1, b2, b3], [c0, c1, c2, c3], [d0, d1, d2, d3]]"
    by blast
  note n = assms(2) [unfolded b no_moves_left_cells]
  show "map slide_row b = b"
    using n by (simp add: b slide_row_fixed)
  show "map slide_row (map reverse b) = map reverse b"
    using n by (simp add: b reverse_def slide_row_fixed_rev)
  show "map slide_row (transpose_board b) = transpose_board b"
    using n by (simp add: b transpose_cells slide_row_fixed)
  show "map slide_row (map reverse (transpose_board b)) = map reverse (transpose_board b)"
    using n by (simp add: b transpose_cells reverse_def slide_row_fixed_rev)
qed

lemma near_win_move:
  "move near_win_game ''LEFT'' example_draw = Inr (Some near_win_result, near_win_after)"
  by code_simp

lemma example_move:
  "move example_game ''LEFT'' example_draw = Inr (Some example_result, example_after)"
  by code_simp

lemma example_grids:
  "is_grid (board example_game)" "is_grid (board full_game)" "is_grid (board near_win_game)"
  by (simp_all add: example_game_def full_game_def near_win_game_def is_grid_def GRID_SIZE_def)

section \<open>Game over\<close>

text \<open>
  C5. On a grid of four rows of four cells \<open>move\<close> returns, and after an accepted move the
  game-over flag is True if and only if the grid of the game has no zero cell and no two
  cells next to each other in a row or a column with the same value. For every such grid
  the move engine reports \<open>moved = False\<close> in each of the four directions.
\<close>

theorem game_over_iff_no_moves_left:
  "(is_grid (board g) \<longrightarrow>
      (\<exists>r g'. move g direction d = Inr (r, g')
         \<and> (r \<noteq> None \<longrightarrow> game_over g' = no_moves_left (board g'))))
   \<and> (is_grid b \<and> no_moves_left b \<and> direction' \<in> directions \<longrightarrow>
        (\<exists>res. move_engine direction' b = Inr res \<and> \<not> moved res))"
proof (intro conjI impI)
  assume "is_grid (board g)"
  from move_grid [OF this, of direction d]
  show "\<exists>r g'. move g direction d = Inr (r, g')
         \<and> (r \<noteq> None \<longrightarrow> game_over g' = no_moves_left (board g'))"
    by blast
next
  assume a: "is_grid b \<and> no_moves_left b \<and> direction' \<in> directions"
  then have g: "is_grid b" and n: "no_moves_left b" by simp_all
  from a consider "direction' = ''LEFT''" | "direction' = ''RIGHT''"
    | "direction' = ''UP''" | "direction' = ''DOWN''"
    by (auto simp: directions_def)
  then show "\<exists>res. move_engine direction' b = Inr res \<and> \<not> moved res"
  proof cases
    case 1
    then show ?thesis by (simp add: move_engine_grid(1) [OF g] stuck_rows(1) [OF g n])
  next
    case 2
    then show ?thesis
      by (simp add: move_engine_grid(2) [OF g] stuck_rows(2) [OF g n] del: map_map)
  next
    case 3
    then show ?thesis
      by (simp add: move_engine_grid(3) [OF g] stuck_rows(3) [OF g n] del: map_map)
  next
    case 4
    then show ?thesis
      by (simp add: move_engine_grid(4) [OF g] stuck_rows(4) [OF g n] del: map_map)
  qed
qed

theorem game_over_iff_no_moves_left_witness:
  "is_grid (board example_game) \<and>
   move example_game ''LEFT'' example_draw = Inr (Some example_result, example_after) \<and>
   Some example_result \<noteq> None \<and>
   game_over example_after = no_moves_left (board example_after) \<and>
   is_grid (board full_game) \<and> no_moves_left (board full_game) \<and> ''UP'' \<in> directions \<and>
   (\<exists>res. move_engine ''UP'' (board full_game) = Inr res \<and> \<not> moved res)"
proof -
  have n: "no_moves_left (board full_game)"
    by (simp add: full_game_def no_moves_left_cells)
  have u: "''UP'' \<in> directions"
    by (simp add: directions_def)
  note t = game_over_iff_no_moves_left
    [of example_game "''LEFT''" example_draw "board full_game" "''UP''"]
  from t example_grids(1) example_move
  have a: "game_over example_after = no_moves_left (board example_after)"
    by simp
  from t example_grids(2) n u
  have b: "\<exists>res. move_engine ''UP'' (board full_game) = Inr res \<and> \<not> moved res"
    by blast
  show ?thesis
    using example_grids(1,2) example_move a n u b by simp
qed

section \<open>The won flag\<close>

text \<open>
  C7. On a grid of four rows of four cells a \<open>move\<close> returns; after an accepted move on
  whose grid some cell is at least 2048 the won flag is True; and a won flag that is True
  stays True through one command and through every sequence of commands.
\<close>

theorem won_is_latched:
  assumes "is_grid (board g)"
  shows "(\<exists>r g'. move g direction d = Inr (r, g')
            \<and> (r \<noteq> None \<and> reaches_2048 (board g') \<longrightarrow> won g')
            \<and> (won g \<longrightarrow> won g'))
       \<and> (\<exists>rs g'. play g cmds = Inr (rs, g') \<and> (won g \<longrightarrow> won g'))"
proof
  from move_grid [OF assms, of direction d] obtain r g' where
    m: "move g direction d = Inr (r, g')" and n: "r = None \<longrightarrow> g' = g"
    and a: "\<forall>res. r = Some res \<longrightarrow> won g' = (won g \<or> reaches_2048 (board g'))"
    by blast
  have "(r \<noteq> None \<and> reaches_2048 (board g') \<longrightarrow> won g') \<and> (won g \<longrightarrow> won g')"
    using n a by (cases r) auto
  with m show "\<exists>r g'. move g direction d = Inr (r, g')
            \<and> (r \<noteq> None \<and> reaches_2048 (board g') \<longrightarrow> won g')
            \<and> (won g \<longrightarrow> won g')"
    by blast
next
  from play_grid [OF assms, of cmds]
  show "\<exists>rs g'. play g cmds = Inr (rs, g') \<and> (won g \<longrightarrow> won g')"
    by blast
qed

theorem won_is_latched_witness:
  "is_grid (board near_win_game) \<and>
   move near_win_game ''LEFT'' example_draw = Inr (Some near_win_result, near_win_after) \<and>
   Some near_win_result \<noteq> None \<and> reaches_2048 (board near_win_after) \<and>
   won near_win_after \<and>
   is_grid (board near_win_after) \<and> won near_win_after \<and>
   (\<exists>rs g'. play near_win_after [(''DOWN'', example_draw), (''JUMP'', example_draw)] = Inr (rs, g')
      \<and> won g')"
proof -
  have g2: "is_grid (board near_win_after)"
    by (simp add: near_win_after_def is_grid_def GRID_SIZE_def)
  have r: "reaches_2048 (board near_win_after)"
    by (simp add: near_win_after_def reaches_2048_def)
  from won_is_latched [OF example_grids(3), of "''LEFT''" example_draw "[]"] near_win_move r
  have w: "won near_win_after"
    by simp
  from won_is_latched [OF g2, of "''LEFT''" example_draw
      "[(''DOWN'', example_draw), (''JUMP'', example_draw)]"] w
  have p: "\<exists>rs g'. play near_win_after [(''DOWN'', example_draw), (''JUMP'', example_draw)]
      = Inr (rs, g') \<and> won g'"
    by blast
  show ?thesis
    using example_grids(3) near_win_move r w g2 p by simp
qed

section \<open>The sum of the grid\<close>

text \<open>
  C4, as the code has it. Over every sequence of commands from a grid of four rows of
  four cells, the sum of the grid afterwards is the sum before plus the values of the
  tiles spawned by the accepted commands. The score gains are not part of it: a merge
  replaces two tiles \<open>v\<close> by one tile \<open>2 * v\<close> and leaves the sum as it is.
\<close>

theorem grid_sum_conservation:
  assumes "is_grid (board g)"
  shows "\<exists>rs g'. play g cmds = Inr (rs, g')
           \<and> grid_sum (board g')
               = grid_sum (board g) + sum_list (map (\<lambda>res. spawn_value (spawn res)) rs)"
  using play_grid [OF assms, of cmds] by blast

theorem grid_sum_conservation_witness:
  "is_grid (board example_game) \<and>
   (\<exists>rs g'. play example_game [(''LEFT'', example_draw), (''UP'', example_draw)] = Inr (rs, g')
      \<and> grid_sum (board g')
          = grid_sum (board example_game) + sum_list (map (\<lambda>res. spawn_value (spawn res)) rs))"
  using grid_sum_conservation
      [OF example_grids(1), of "[(''LEFT'', example_draw), (''UP'', example_draw)]"]
    example_grids(1)
  by blast

text \<open>
  The claim with the score gains added fails on the first example: sliding \<open>[2,2,0,0]\<close>
  left gains 4 and spawns a 2, and the sum of the grid goes from 4 to 6, not to 10.
\<close>

theorem gains_do_not_enter_grid_sum_counterexample:
  "play example_game [(''LEFT'', example_draw)] = Inr ([example_result], example_after) \<and>
   grid_sum (board example_after)
     \<noteq> grid_sum (board example_game) + score_gain example_result
         + spawn_value (spawn example_result)"
proof
  show "play example_game [(''LEFT'', example_draw)] = Inr ([example_result], example_after)"
    by (simp add: example_move)
  show "grid_sum (board example_after)
     \<noteq> grid_sum (board example_game) + score_gain example_result
         + spawn_value (spawn example_result)"
    by (simp add: example_after_def example_game_def example_result_def grid_sum_def
        spawn_value_def)
qed

section \<open>The score file: round trip and fallback\<close>

text \<open>
  What holds: a save whose write succeeds is read back as the saved pair, and a file that
  is missing, cannot be opened or read, is not UTF-8, is not JSON, or holds a string that
  \<open>int\<close> rejects, loads as the zero state.
\<close>

lemma save_then_load:
  "next_write d = WriteOk \<Longrightarrow>
   load_score_state parse (contents (save_score_state b t d))
     = Inr \<lparr>ss_best_score = b, ss_total_score = t\<rparr>"
  by (simp add: save_score_state_def load_score_state_def load_fields_def)

lemma save_round_trip_example:
  "load_score_state parse (contents (save_score_state 100 500 example_disk))
     = Inr \<lparr>ss_best_score = 100, ss_total_score = 500\<rparr>"
  by (simp add: save_then_load example_disk_def)

lemma load_fallback:
  "load_score_state parse Missing = Inr zero_state"
  "load_score_state parse Unreadable = Inr zero_state"
  "load_score_state parse Undecodable = Inr zero_state"
  "load_score_state parse NotJson = Inr zero_state"
  by (simp_all add: load_score_state_def load_handler_def)

lemma load_bad_number:
  "parse s = None \<Longrightarrow>
   load_score_state parse (Json (JObj [(''best_score'', JStr s), (''total_score'', JInt t)]))
     = Inr zero_state"
  by (simp add: load_score_state_def load_fields_def load_handler_def)

text \<open>
  C9. The claim is that every corrupt store loads as the zero state. A store that holds
  well-formed JSON of the wrong shape does not: \<open>int(None)\<close> raises TypeError, \<open>.get\<close> on
  a list or on None raises AttributeError, \<open>int\<close> of an infinite float raises
  OverflowError, and the \<open>except\<close> clause of \<open>load_score_state\<close> names none of them, so
  the exception leaves \<open>load_score_state\<close> and the constructor of the game.
\<close>

theorem load_score_state_wrong_shape_raises:
  "load_score_state parse (Json (JObj [(''best_score'', JNull), (''total_score'', JInt 500)]))
     = Inl TypeError
   \<and> load_score_state parse (Json (JArr [])) = Inl AttributeError
   \<and> load_score_state parse (Json JNull) = Inl AttributeError
   \<and> load_score_state parse
         (Json (JObj [(''best_score'', JFloat PosInf), (''total_score'', JInt 500)]))
       = Inl OverflowError
   \<and> init_game parse
         \<lparr>contents = Json (JObj [(''best_score'', JNull), (''total_score'', JInt 500)]),
          next_write = WriteOk, save_calls = []\<rparr> d1 d2
       = Inl TypeError"
  by (simp add: load_score_state_def load_fields_def load_handler_def init_game_def)

section \<open>The four directions against a direct simulation\<close>

lemma map_cells_line_moves:
  "map (map_cells fc) (line_moves dest k tiles)
     = line_moves (\<lambda>j. fc (dest j)) k (map (apsnd fc) tiles)"
  by (induction dest k tiles rule: line_moves.induct) (auto simp: map_cells_def)

lemma enumerate_nth: "enumerate 0 xs = map (\<lambda>i. (i, xs ! i)) [0..<length xs]"
  by (rule nth_equalityI) (simp_all add: nth_enumerate_eq)

lemma board_moves_lines:
  "board_moves 0 X = concat (map (\<lambda>i. row_moves i (X ! i)) [0..<length X])"
  by (simp add: board_moves_def enumerate_nth comp_def)

lemma brute_generic:
  assumes len: "length X = GRID_SIZE"
    and tiles: "\<And>i. i < GRID_SIZE \<Longrightarrow> map (apsnd fc) (non_zero_of i (X ! i)) = line_tiles D b i"
    and dest: "\<And>i k. fc (int i, int k) = line_cell D i k"
  shows "map (map_cells fc) (board_moves 0 X) = moves (brute_force D b)"
    and "sum_list (map row_gain X) = score_gain (brute_force D b)"
proof -
  have line: "map (map_cells fc) (row_moves i (X ! i))
      = line_moves (line_cell D i) 0 (line_tiles D b i)" if "i < GRID_SIZE" for i
    by (simp add: row_moves_def map_cells_line_moves tiles [OF that] dest)
  have eq: "map (\<lambda>i. map (map_cells fc) (row_moves i (X ! i))) [0..<GRID_SIZE]
      = map (\<lambda>i. line_moves (line_cell D i) 0 (line_tiles D b i)) [0..<GRID_SIZE]"
    by (rule map_cong [OF refl]) (simp add: line)
  have "map (map_cells fc) (board_moves 0 X)
      = concat (map (\<lambda>i. map (map_cells fc) (row_moves i (X ! i))) [0..<GRID_SIZE])"
    by (simp add: board_moves_lines len map_concat comp_def)
  also have "\<dots> = concat (map (\<lambda>i. line_moves (line_cell D i) 0 (line_tiles D b i))
      [0..<GRID_SIZE])"
    by (simp only: eq)
  finally show "map (map_cells fc) (board_moves 0 X) = moves (brute_force D b)"
    by (simp add: brute_force_def)
  have gain: "row_gain (X ! i) = gain_pairs (map fst (line_tiles D b i))"
    if "i < GRID_SIZE" for i
  proof -
    have "map fst (line_tiles D b i) = map fst (non_zero_of i (X ! i))"
      by (simp add: tiles [OF that, symmetric] comp_def)
    then show ?thesis
      by (simp add: row_gain_def fst_non_zero_of)
  qed
  have "map row_gain X = map row_gain (map (\<lambda>i. X ! i) [0..<GRID_SIZE])"
    using map_nth [of X] len by simp
  also have "\<dots> = map (\<lambda>i. gain_pairs (map fst (line_tiles D b i))) [0..<GRID_SIZE]"
    unfolding map_map comp_def by (rule map_cong [OF refl]) (simp add: gain)
  finally show "sum_list (map row_gain X) = score_gain (brute_force D b)"
    by (simp add: brute_force_def)
qed

lemma below_four: "i < GRID_SIZE \<Longrightarrow> i = 0 \<or> i = 1 \<or> i = 2 \<or> i = 3"
  by (auto simp: GRID_SIZE_def)

lemma tiles_right:
  assumes "i < GRID_SIZE"
  shows "map (apsnd (\<lambda>p. (fst p, int GRID_SIZE - 1 - snd p)))
           (non_zero_of i
              (map reverse [[a0, a1, a2, a3], [b0, b1, b2, b3], [c0, c1, c2, c3], [d0, d1, d2, d3]] ! i))
         = line_tiles ''RIGHT''
             [[a0, a1, a2, a3], [b0, b1, b2, b3], [c0, c1, c2, c3], [d0, d1, d2, d3]] i"
  using below_four [OF assms]
  by (elim disjE)
    (simp_all add: non_zero_of_def line_tiles_def line_cell_def at_cell_def GRID_SIZE_def
      upt_rec reverse_def)

lemma tiles_down:
  assumes "i < GRID_SIZE"
  shows "map (apsnd (\<lambda>p. (int GRID_SIZE - 1 - snd p, fst p)))
           (non_zero_of i
              (map reverse (transpose_board
                 [[a0, a1, a2, a3], [b0, b1, b2, b3], [c0, c1, c2, c3], [d0, d1, d2, d3]]) ! i))
         = line_tiles ''DOWN''
             [[a0, a1, a2, a3], [b0, b1, b2, b3], [c0, c1, c2, c3], [d0, d1, d2, d3]] i"
  using below_four [OF assms]
  by (elim disjE)
    (simp_all add: non_zero_of_def line_tiles_def line_cell_def at_cell_def GRID_SIZE_def
      upt_rec reverse_def transpose_cells)

lemma slid_line_generic:
  assumes "map (apsnd fc) (non_zero_of i row) = line_tiles D b i"
  shows "slid_line D b i = slide_row row"
proof -
  have "map fst (line_tiles D b i) = map fst (non_zero_of i row)"
    by (simp add: assms [symmetric] comp_def)
  then show ?thesis
    by (simp add: slid_line_def slide_row_def fst_non_zero_of)
qed

lemma reverse_four: "length xs = 4 \<Longrightarrow> reverse xs = [xs ! 3, xs ! 2, xs ! 1, xs ! 0]"
  using length_four [of xs] by (auto simp: reverse_def)

lemma nth_four: "length xs = 4 \<Longrightarrow> [xs ! 0, xs ! 1, xs ! 2, xs ! 3] = xs"
  using length_four [of xs] by auto

lemma length_slide_four [simp]: "length (slide_row [a, b, c, d]) = 4"
  using length_slide_row [of "[a, b, c, d]"] by (simp add: GRID_SIZE_def)

lemma board_right:
  "map reverse (map slide_row (map reverse
      [[a0, a1, a2, a3], [b0, b1, b2, b3], [c0, c1, c2, c3], [d0, d1, d2, d3]]))
   = brute_board ''RIGHT''
      [[a0, a1, a2, a3], [b0, b1, b2, b3], [c0, c1, c2, c3], [d0, d1, d2, d3]]"
proof -
  let ?B = "[[a0, a1, a2, a3], [b0, b1, b2, b3], [c0, c1, c2, c3], [d0, d1, d2, d3]]"
  have sl: "slid_line ''RIGHT'' ?B i = slide_row (map reverse ?B ! i)" if "i < GRID_SIZE" for i
    by (rule slid_line_generic [OF tiles_right [OF that]])
  have s: "slid_line ''RIGHT'' ?B 0 = slide_row [a3, a2, a1, a0]"
    "slid_line ''RIGHT'' ?B 1 = slide_row [b3, b2, b1, b0]"
    "slid_line ''RIGHT'' ?B 2 = slide_row [c3, c2, c1, c0]"
    "slid_line ''RIGHT'' ?B 3 = slide_row [d3, d2, d1, d0]"
    by (simp_all add: sl GRID_SIZE_def reverse_def)
  show ?thesis
    by (simp add: brute_board_def line_pos_def GRID_SIZE_def upt_rec s reverse_four
        flip: numeral_2_eq_2 numeral_3_eq_3 One_nat_def)
qed

lemma tiles_left:
  assumes "i < GRID_SIZE"
  shows "map (apsnd (\<lambda>p. p))
           (non_zero_of i
              ([[a0, a1, a2, a3], [b0, b1, b2, b3], [c0, c1, c2, c3], [d0, d1, d2, d3]] ! i))
         = line_tiles ''LEFT''
             [[a0, a1, a2, a3], [b0, b1, b2, b3], [c0, c1, c2, c3], [d0, d1, d2, d3]] i"
  using below_four [OF assms]
  by (elim disjE)
    (simp_all add: non_zero_of_def line_tiles_def line_cell_def at_cell_def GRID_SIZE_def
      upt_rec)

lemma tiles_up:
  assumes "i < GRID_SIZE"
  shows "map (apsnd (\<lambda>p. (snd p, fst p)))
           (non_zero_of i
              (transpose_board
                 [[a0, a1, a2, a3], [b0, b1, b2, b3], [c0, c1, c2, c3], [d0, d1, d2, d3]] ! i))
         = line_tiles ''UP''
             [[a0, a1, a2, a3], [b0, b1, b2, b3], [c0, c1, c2, c3], [d0, d1, d2, d3]] i"
  using below_four [OF assms]
  by (elim disjE)
    (simp_all add: non_zero_of_def line_tiles_def line_cell_def at_cell_def GRID_SIZE_def
      upt_rec transpose_cells)

lemma board_left:
  "map slide_row [[a0, a1, a2, a3], [b0, b1, b2, b3], [c0, c1, c2, c3], [d0, d1, d2, d3]]
   = brute_board ''LEFT''
      [[a0, a1, a2, a3], [b0, b1, b2, b3], [c0, c1, c2, c3], [d0, d1, d2, d3]]"
proof -
  let ?B = "[[a0, a1, a2, a3], [b0, b1, b2, b3], [c0, c1, c2, c3], [d0, d1, d2, d3]]"
  have sl: "slid_line ''LEFT'' ?B i = slide_row (?B ! i)" if "i < GRID_SIZE" for i
    by (rule slid_line_generic [OF tiles_left [OF that]])
  have s: "slid_line ''LEFT'' ?B 0 = slide_row [a0, a1, a2, a3]"
    "slid_line ''LEFT'' ?B 1 = slide_row [b0, b1, b2, b3]"
    "slid_line ''LEFT'' ?B 2 = slide_row [c0, c1, c2, c3]"
    "slid_line ''LEFT'' ?B 3 = slide_row [d0, d1, d2, d3]"
    by (simp_all add: sl GRID_SIZE_def)
  show ?thesis
    by (simp add: brute_board_def line_pos_def GRID_SIZE_def upt_rec s nth_four
        flip: numeral_2_eq_2 numeral_3_eq_3 One_nat_def)
qed

lemma board_up:
  "transpose_board (map slide_row (transpose_board
      [[a0, a1, a2, a3], [b0, b1, b2, b3], [c0, c1, c2, c3], [d0, d1, d2, d3]]))
   = brute_board ''UP''
      [[a0, a1, a2, a3], [b0, b1, b2, b3], [c0, c1, c2, c3], [d0, d1, d2, d3]]"
proof -
  let ?B = "[[a0, a1, a2, a3], [b0, b1, b2, b3], [c0, c1, c2, c3], [d0, d1, d2, d3]]"
  have sl: "slid_line ''UP'' ?B i = slide_row (transpose_board ?B ! i)" if "i < GRID_SIZE" for i
    by (rule slid_line_generic [OF tiles_up [OF that]])
  have s: "slid_line ''UP'' ?B 0 = slide_row [a0, b0, c0, d0]"
    "slid_line ''UP'' ?B 1 = slide_row [a1, b1, c1, d1]"
    "slid_line ''UP'' ?B 2 = slide_row [a2, b2, c2, d2]"
    "slid_line ''UP'' ?B 3 = slide_row [a3, b3, c3, d3]"
    by (simp_all add: sl GRID_SIZE_def transpose_cells)
  show ?thesis
    by (simp add: brute_board_def line_pos_def GRID_SIZE_def upt_rec s transpose_cells
        transpose_rows flip: numeral_2_eq_2 numeral_3_eq_3 One_nat_def)
qed

lemma board_down:
  "transpose_board (map reverse (map slide_row (map reverse (transpose_board
      [[a0, a1, a2, a3], [b0, b1, b2, b3], [c0, c1, c2, c3], [d0, d1, d2, d3]]))))
   = brute_board ''DOWN''
      [[a0, a1, a2, a3], [b0, b1, b2, b3], [c0, c1, c2, c3], [d0, d1, d2, d3]]"
proof -
  let ?B = "[[a0, a1, a2, a3], [b0, b1, b2, b3], [c0, c1, c2, c3], [d0, d1, d2, d3]]"
  have sl: "slid_line ''DOWN'' ?B i = slide_row (map reverse (transpose_board ?B) ! i)"
    if "i < GRID_SIZE" for i
    by (rule slid_line_generic [OF tiles_down [OF that]])
  have s: "slid_line ''DOWN'' ?B 0 = slide_row [d0, c0, b0, a0]"
    "slid_line ''DOWN'' ?B 1 = slide_row [d1, c1, b1, a1]"
    "slid_line ''DOWN'' ?B 2 = slide_row [d2, c2, b2, a2]"
    "slid_line ''DOWN'' ?B 3 = slide_row [d3, c3, b3, a3]"
    by (simp_all add: sl GRID_SIZE_def transpose_cells reverse_def)
  show ?thesis
    by (simp add: brute_board_def line_pos_def GRID_SIZE_def upt_rec s transpose_cells
        reverse_four flip: numeral_2_eq_2 numeral_3_eq_3 One_nat_def)
qed

lemma brute_force_fields:
  "brute_force D b =
     \<lparr>r_board = brute_board D b, score_gain = score_gain (brute_force D b),
      moved = (brute_board D b \<noteq> b), moves = moves (brute_force D b), spawn = None\<rparr>"
  by (simp add: brute_force_def)

lemma mirror_as_map_cells:
  "mirror_horizontal = map_cells (\<lambda>p. (fst p, int GRID_SIZE - 1 - snd p))"
  by (rule ext) (simp add: mirror_horizontal_def map_cells_def)

lemma transpose_as_map_cells: "transpose_move = map_cells (\<lambda>p. (snd p, fst p))"
  by (rule ext) (simp add: transpose_move_def map_cells_def)

lemma both_as_map_cells:
  "map transpose_move (map mirror_horizontal ms)
     = map (map_cells (\<lambda>p. (int GRID_SIZE - 1 - snd p, fst p))) ms"
  by (simp add: mirror_horizontal_def transpose_move_def map_cells_def)

lemma map_cells_ident: "map (map_cells (\<lambda>p. p)) ms = ms"
  by (induction ms) (simp_all add: map_cells_def)

lemma engine_is_brute_force:
  assumes g: "is_grid b" and d: "direction \<in> directions"
  shows "move_engine direction b = Inr (brute_force direction b)"
proof -
  from is_grid_cells [OF g] obtain a0 a1 a2 a3 b0 b1 b2 b3 c0 c1 c2 c3 d0 d1 d2 d3
    where b: "b = [[a0, a1, a2, a3], [b0, b1, b2, b3], [c0, c1, c2, c3], [d0, d1, d2, d3]]"
    by blast
  note gt = is_grid_transpose [OF g]
  from d consider "direction = ''LEFT''" | "direction = ''RIGHT''"
    | "direction = ''UP''" | "direction = ''DOWN''"
    by (auto simp: directions_def)
  then show ?thesis
  proof cases
    case 1
    have len: "length b = GRID_SIZE" using g by (simp add: is_grid_def)
    have bd: "map slide_row b = brute_board ''LEFT'' b"
      unfolding b by (rule board_left)
    have tl: "\<And>i. i < GRID_SIZE \<Longrightarrow>
        map (apsnd (\<lambda>p. p)) (non_zero_of i (b ! i)) = line_tiles ''LEFT'' b i"
      unfolding b by (rule tiles_left)
    have ds: "\<And>i k. (\<lambda>p. p) (int i, int k) = line_cell ''LEFT'' i k"
      by (simp add: line_cell_def)
    note bg = brute_generic [OF len tl ds]
    have mv: "map (map_cells (\<lambda>p. p)) (board_moves 0 b)
        = moves (brute_force ''LEFT'' b)"
      by (rule bg(1))
    have gn: "sum_list (map row_gain b)
        = score_gain (brute_force ''LEFT'' b)"
      by (rule bg(2))
    show ?thesis
      unfolding 1 move_engine_grid(1) [OF g]
      by (subst brute_force_fields)
        (simp add: bd gn mv [unfolded map_cells_ident] board_moves_def [symmetric])
  next
    case 2
    have len: "length (map reverse b) = GRID_SIZE" using g by (simp add: is_grid_def)
    have bd: "map reverse (map slide_row (map reverse b)) = brute_board ''RIGHT'' b"
      unfolding b by (rule board_right)
    have tl: "\<And>i. i < GRID_SIZE \<Longrightarrow>
        map (apsnd (\<lambda>p. (fst p, int GRID_SIZE - 1 - snd p)))
          (non_zero_of i (map reverse b ! i))
        = line_tiles ''RIGHT'' b i"
      unfolding b by (rule tiles_right)
    have ds: "\<And>i k. (\<lambda>p. (fst p, int GRID_SIZE - 1 - snd p)) (int i, int k)
        = line_cell ''RIGHT'' i k"
      by (simp add: line_cell_def)
    note bg = brute_generic [OF len tl ds]
    have mv: "map (map_cells (\<lambda>p. (fst p, int GRID_SIZE - 1 - snd p)))
          (board_moves 0 (map reverse b))
        = moves (brute_force ''RIGHT'' b)"
      by (rule bg(1))
    have gn: "sum_list (map row_gain (map reverse b))
        = score_gain (brute_force ''RIGHT'' b)"
      by (rule bg(2))
    have md: "(map slide_row (map reverse b) \<noteq> map reverse b)
        = (brute_board ''RIGHT'' b \<noteq> b)"
      unfolding bd [symmetric] by (simp add: reverse_swap del: map_map)
    show ?thesis
      unfolding 2 move_engine_grid(2) [OF g]
      by (subst brute_force_fields)
        (simp add: bd gn md mv [folded mirror_as_map_cells] board_moves_def [symmetric]
          del: map_map)
  next
    case 3
    have len: "length (transpose_board b) = GRID_SIZE" using gt by (simp add: is_grid_def)
    have bd: "transpose_board (map slide_row (transpose_board b)) = brute_board ''UP'' b"
      unfolding b by (rule board_up)
    have tl: "\<And>i. i < GRID_SIZE \<Longrightarrow>
        map (apsnd (\<lambda>p. (snd p, fst p))) (non_zero_of i (transpose_board b ! i))
        = line_tiles ''UP'' b i"
      unfolding b by (rule tiles_up)
    have ds: "\<And>i k. (\<lambda>p. (snd p, fst p)) (int i, int k) = line_cell ''UP'' i k"
      by (simp add: line_cell_def)
    note bg = brute_generic [OF len tl ds]
    have mv: "map (map_cells (\<lambda>p. (snd p, fst p))) (board_moves 0 (transpose_board b))
        = moves (brute_force ''UP'' b)"
      by (rule bg(1))
    have gn: "sum_list (map row_gain (transpose_board b))
        = score_gain (brute_force ''UP'' b)"
      by (rule bg(2))
    have md: "(map slide_row (transpose_board b) \<noteq> transpose_board b)
        = (brute_board ''UP'' b \<noteq> b)"
      unfolding bd [symmetric]
      by (simp add: transpose_swap [OF is_grid_slide [OF gt] g] del: map_map)
    show ?thesis
      unfolding 3 move_engine_grid(3) [OF g]
      by (subst brute_force_fields)
        (simp add: bd gn md mv [folded transpose_as_map_cells] board_moves_def [symmetric]
          del: map_map)
  next
    case 4
    have len: "length (map reverse (transpose_board b)) = GRID_SIZE"
      using gt by (simp add: is_grid_def)
    have bd: "transpose_board (map reverse (map slide_row (map reverse (transpose_board b))))
        = brute_board ''DOWN'' b"
      unfolding b by (rule board_down)
    have tl: "\<And>i. i < GRID_SIZE \<Longrightarrow>
        map (apsnd (\<lambda>p. (int GRID_SIZE - 1 - snd p, fst p)))
          (non_zero_of i (map reverse (transpose_board b) ! i))
        = line_tiles ''DOWN'' b i"
      unfolding b by (rule tiles_down)
    have ds: "\<And>i k. (\<lambda>p. (int GRID_SIZE - 1 - snd p, fst p)) (int i, int k)
        = line_cell ''DOWN'' i k"
      by (simp add: line_cell_def)
    note bg = brute_generic [OF len tl ds]
    have mv: "map (map_cells (\<lambda>p. (int GRID_SIZE - 1 - snd p, fst p)))
          (board_moves 0 (map reverse (transpose_board b)))
        = moves (brute_force ''DOWN'' b)"
      by (rule bg(1))
    have gn: "sum_list (map row_gain (map reverse (transpose_board b)))
        = score_gain (brute_force ''DOWN'' b)"
      by (rule bg(2))
    have s: "is_grid (map reverse (map slide_row (map reverse (transpose_board b))))"
      by (intro is_grid_reverse is_grid_slide gt)
    have md: "(map slide_row (map reverse (transpose_board b)) \<noteq> map reverse (transpose_board b))
        = (brute_board ''DOWN'' b \<noteq> b)"
      unfolding bd [symmetric]
      by (simp add: transpose_swap [OF s g] reverse_swap del: map_map)
    show ?thesis
      unfolding 4 move_engine_grid(4) [OF g]
      by (subst brute_force_fields)
        (simp add: bd gn md mv [folded both_as_map_cells] board_moves_def [symmetric]
          del: map_map)
  qed
qed

text \<open>
  C3. For every grid of four rows of four cells and each of the four directions, the
  result that \<open>move\<close> computes by reversing and transposing around slide left is the
  result of the direct simulation: the same board, score gain, moved flag and list of
  movements with the same coordinates in the same order. The result for DOWN is the
  composition transpose, reverse rows, slide left, reverse rows, transpose, with each
  movement mirrored and then transposed.
\<close>

theorem directions_equal_direct_simulation:
  assumes "is_grid b" and "direction \<in> directions"
  shows "move_engine direction b = Inr (brute_force direction b)
       \<and> move_engine ''DOWN'' b = down_by_transforms b"
proof
  show "move_engine direction b = Inr (brute_force direction b)"
    by (rule engine_is_brute_force [OF assms])
  show "move_engine ''DOWN'' b = down_by_transforms b"
    by (simp add: move_engine_def down_by_transforms_def Let_def comp_def split: sum.splits)
qed

theorem directions_equal_direct_simulation_witness:
  "is_grid (board example_game) \<and> ''DOWN'' \<in> directions \<and>
   move_engine ''DOWN'' (board example_game) = Inr (brute_force ''DOWN'' (board example_game)) \<and>
   move_engine ''DOWN'' (board example_game) = down_by_transforms (board example_game) \<and>
   brute_force ''DOWN'' (board example_game) =
     \<lparr>r_board = [[0, 0, 0, 0], [0, 0, 0, 0], [0, 0, 0, 0], [2, 2, 0, 0]],
      score_gain = 0, moved = True,
      moves = [\<lparr>tm_start = (0, 0), tm_end = (3, 0), tm_value = 2, tm_merged = False\<rparr>,
               \<lparr>tm_start = (0, 1), tm_end = (3, 1), tm_value = 2, tm_merged = False\<rparr>],
      spawn = None\<rparr>"
proof -
  have h1: "is_grid (board example_game)"
    by (simp add: example_game_def is_grid_def GRID_SIZE_def)
  have h2: "''DOWN'' \<in> directions"
    by (simp add: directions_def)
  have v: "brute_force ''DOWN'' (board example_game) =
     \<lparr>r_board = [[0, 0, 0, 0], [0, 0, 0, 0], [0, 0, 0, 0], [2, 2, 0, 0]],
      score_gain = 0, moved = True,
      moves = [\<lparr>tm_start = (0, 0), tm_end = (3, 0), tm_value = 2, tm_merged = False\<rparr>,
               \<lparr>tm_start = (0, 1), tm_end = (3, 1), tm_value = 2, tm_merged = False\<rparr>],
      spawn = None\<rparr>"
    by code_simp
  note t = directions_equal_direct_simulation [OF h1 h2]
  show ?thesis
    by (intro conjI h1 h2 v conjunct1 [OF t] conjunct2 [OF t])
qed

end
